theory Spec2Isabelle
  imports Complex_Main "HOL-Library.Word" "HOL-Library.Product_Lexorder"
begin

unbundle bit_operations_syntax

section \<open>UV-island gradient generator: the data model\<close>

text \<open>
  A shallow embedding of \<^verbatim>\<open>src/tools/uv_island_gradient.py\<close>.

  Conventions of the embedding.
  \<^item> A NumPy float array is a list of \<open>real\<close>s: the arithmetic is the exact one that the
    float code approximates. NaN and the infinities have no counterpart.
  \<^item> Python's unbounded integers are \<open>int\<close>; the \<open>int32\<close> cast of pixel coordinates is
    written out with its wrap-around (\<open>to_int32\<close>).
  \<^item> Files are outside the model: where the source opens an image, the model is handed
    the decoded array (\<open>decoded_image\<close>, a mask raster).
  \<^item> Library routines that the repository calls but does not define (the BLAKE2b digest
    of \<open>hashlib\<close>, the symmetric eigen-solver of \<open>numpy.linalg\<close>) are parameters
    of the functions that use them.
  \<^item> Every \<open>raise\<close> of the source is an \<open>Inl\<close> result.
  \<^item> The fields of \<open>IslandData\<close> keep their names, so a local variable of the source
    that shares a field's name is shortened here (\<open>pxs\<close> for \<open>pixels\<close>, \<open>puvs\<close> for
    \<open>pixel_uvs\<close>, \<open>iid\<close> for \<open>island_id\<close>).
\<close>

datatype error = ValueError | IndexError | OverflowError

type_synonym uv = "real \<times> real"
type_synonym hsv = "real \<times> real \<times> real"
type_synonym pixel = "int \<times> int"

text \<open>\<open>island_id: Union[int, str]\<close>.\<close>

datatype island_id = IntId int | StrId string

text \<open>The dataclass \<open>IslandData\<close>.\<close>

record IslandData =
  island_id :: island_id
  pixels :: "pixel list"
  pixel_uvs :: "uv list option"
  uv_points :: "uv list option"

definition EPS :: real where
  "EPS = 1 / 100000000"

definition PALETTE_LIBRARY :: "(hsv \<times> hsv) list" where
  "PALETTE_LIBRARY =
    [((274, 58 / 100, 92 / 100), (214, 56 / 100, 94 / 100)),
     ((326, 64 / 100, 92 / 100), (28, 64 / 100, 93 / 100)),
     ((188, 69 / 100, 89 / 100), (132, 62 / 100, 92 / 100)),
     ((314, 67 / 100, 90 / 100), (272, 66 / 100, 89 / 100))]"

section \<open>Numeric utilities\<close>

text \<open>Python's \<open>x % m\<close> on floats, for a positive modulus: the result has the sign of \<open>m\<close>.\<close>

definition fmod :: "real \<Rightarrow> real \<Rightarrow> real" where
  "fmod x m = x - m * of_int \<lfloor>x / m\<rfloor>"

definition clamp :: "real \<Rightarrow> real \<Rightarrow> real \<Rightarrow> real" where
  "clamp v lo hi = max lo (min hi v)"

definition clamp01_array :: "real list \<Rightarrow> real list" where
  "clamp01_array arr = map (\<lambda>a. max 0 (min 1 a)) arr"

text \<open>\<open>astype(np.int32)\<close> of a 64-bit integer: the low 32 bits, read as two's complement.\<close>

definition to_int32 :: "int \<Rightarrow> int" where
  "to_int32 x = (x + 2147483648) mod 4294967296 - 2147483648"

section \<open>Palette derivation\<close>

text \<open>\<open>str(value)\<close> for an integer: its decimal numeral, with a minus sign when negative.\<close>

definition digit_char :: "nat \<Rightarrow> char" where
  "digit_char d = char_of (48 + d)"

function str_nat :: "nat \<Rightarrow> string" where
  "str_nat n = (if n < 10 then [digit_char n] else str_nat (n div 10) @ [digit_char (n mod 10)])"
  by pat_completeness auto
termination
  by (relation "measure id") auto

fun py_str :: "island_id \<Rightarrow> string" where
  "py_str (IntId i) = (if i < 0 then CHR ''-'' # str_nat (nat (- i)) else str_nat (nat i))"
| "py_str (StrId s) = s"

text \<open>\<open>int.from_bytes(digest, byteorder="big", signed=False)\<close>.\<close>

definition from_bytes_big :: "8 word list \<Rightarrow> int" where
  "from_bytes_big bs = foldl (\<lambda>acc b. acc * 256 + uint b) 0 bs"

text \<open>
  \<open>stable_hash64\<close>. The parameter \<open>blake2b\<close> is \<open>hashlib.blake2b(data, digest_size=n).digest()\<close>,
  taking the digest size and the encoded string; island-id strings are taken as their
  UTF-8 bytes.
\<close>

definition stable_hash64 :: "(nat \<Rightarrow> string \<Rightarrow> 8 word list) \<Rightarrow> island_id \<Rightarrow> int" where
  "stable_hash64 blake2b v = from_bytes_big (blake2b 8 (py_str v))"

text \<open>The three jitter offsets, local variables of \<open>palette_for_island\<close>.\<close>

definition hue_offset :: "int \<Rightarrow> real" where
  "hue_offset seed = (of_int (drop_bit 8 seed AND 65535) / 65535) * 16 - 8"

definition sat_offset :: "int \<Rightarrow> real" where
  "sat_offset seed = (of_int (drop_bit 24 seed AND 65535) / 65535) * (6 / 100) - 3 / 100"

definition val_offset :: "int \<Rightarrow> real" where
  "val_offset seed = (of_int (drop_bit 40 seed AND 65535) / 65535) * (4 / 100) - 2 / 100"

definition palette_for_island :: "(nat \<Rightarrow> string \<Rightarrow> 8 word list) \<Rightarrow> island_id \<Rightarrow> hsv \<times> hsv" where
  "palette_for_island blake2b i =
    (let seed = stable_hash64 blake2b i;
         (base_left, base_right) = PALETTE_LIBRARY ! nat (seed mod int (length PALETTE_LIBRARY));
         left = (fmod (fst base_left + hue_offset seed) 360,
                 clamp (fst (snd base_left) + sat_offset seed) (55 / 100) (75 / 100),
                 clamp (snd (snd base_left) + val_offset seed) (85 / 100) (95 / 100));
         right = (fmod (fst base_right + hue_offset seed) 360,
                  clamp (fst (snd base_right) + sat_offset seed) (55 / 100) (75 / 100),
                  clamp (snd (snd base_right) + val_offset seed) (85 / 100) (95 / 100))
     in (left, right))"



section \<open>Colour interpolation\<close>

text \<open>The wrapped hue difference \<open>dh\<close> of \<open>lerp_hsv\<close>.\<close>

definition hue_delta :: "real \<Rightarrow> real \<Rightarrow> real" where
  "hue_delta h0 h1 = fmod (h1 - h0 + 180) 360 - 180"

definition lerp_hsv :: "hsv \<Rightarrow> hsv \<Rightarrow> real list \<Rightarrow> hsv list" where
  "lerp_hsv left_hsv right_hsv t =
    (case left_hsv of (h0, s0, v0) \<Rightarrow>
     case right_hsv of (h1, s1, v1) \<Rightarrow>
       (let dh = hue_delta h0 h1
        in map (\<lambda>ti. (fmod (h0 + dh * ti) 360, s0 + (s1 - s0) * ti, v0 + (v1 - v0) * ti)) t))"

text \<open>
  \<open>np.round\<close> and Python's \<open>round\<close>: to the nearest integer, a tie to the even one.
\<close>

definition np_round :: "real \<Rightarrow> int" where
  "np_round x =
    (let f = \<lfloor>x\<rfloor>; d = x - of_int f
     in if d < 1 / 2 then f else if 1 / 2 < d then f + 1 else if even f then f else f + 1)"

type_synonym rgb = "8 word \<times> 8 word \<times> 8 word"
type_synonym rgba = "8 word \<times> 8 word \<times> 8 word \<times> 8 word"

text \<open>\<open>np.clip(np.round(c * 255.0), 0, 255).astype(np.uint8)\<close> for one channel.\<close>

definition to_u8 :: "real \<Rightarrow> 8 word" where
  "to_u8 c = word_of_int (max 0 (min 255 (np_round (c * 255))))"

text \<open>
  \<open>hsv_to_rgb_np\<close> for one row of the array. The six masks of the source are mutually
  exclusive; a row that none of them selects keeps the zeros \<open>r\<close>, \<open>g\<close>, \<open>b\<close> were
  created with.
\<close>

definition hsv_to_rgb1 :: "hsv \<Rightarrow> rgb" where
  "hsv_to_rgb1 hsv =
    (case hsv of (h_in, s_in, v_in) \<Rightarrow>
      (let h = fmod h_in 360;
           s = max 0 (min 1 s_in);
           v = max 0 (min 1 v_in);
           c = v * s;
           hp = h / 60;
           x = c * (1 - \<bar>fmod hp 2 - 1\<bar>);
           m = v - c;
           (r, g, b) =
             (if 0 \<le> hp \<and> hp < 1 then (c, x, 0)
              else if 1 \<le> hp \<and> hp < 2 then (x, c, 0)
              else if 2 \<le> hp \<and> hp < 3 then (0, c, x)
              else if 3 \<le> hp \<and> hp < 4 then (0, x, c)
              else if 4 \<le> hp \<and> hp < 5 then (x, 0, c)
              else if 5 \<le> hp \<and> hp < 6 then (c, 0, x)
              else (0, 0, 0))
       in (to_u8 (r + m), to_u8 (g + m), to_u8 (b + m))))"

definition hsv_to_rgb_np :: "hsv list \<Rightarrow> rgb list" where
  "hsv_to_rgb_np hsv = map hsv_to_rgb1 hsv"

section \<open>Axis and local parameter\<close>

definition infer_uvs_from_pixels :: "pixel list \<Rightarrow> int \<Rightarrow> int \<Rightarrow> uv list" where
  "infer_uvs_from_pixels pxs width height =
    map (\<lambda>(x, y). ((of_int x + 1 / 2) / of_int (max 1 width),
                    1 - (of_int y + 1 / 2) / of_int (max 1 height))) pxs"

text \<open>The slice \<open>sample[::step]\<close>.\<close>

definition strided :: "nat \<Rightarrow> 'a list \<Rightarrow> 'a list" where
  "strided step xs = map (\<lambda>i. xs ! i) (filter (\<lambda>i. i mod step = 0) [0..<length xs])"

text \<open>\<open>np.mean(points, axis=0)\<close>.\<close>

definition mean_uv :: "uv list \<Rightarrow> uv" where
  "mean_uv ps = (sum_list (map fst ps) / real (length ps), sum_list (map snd ps) / real (length ps))"

type_synonym mat2 = "(real \<times> real) \<times> (real \<times> real)"

text \<open>
  \<open>compute_principal_axis\<close>. The parameter \<open>eigh\<close> is \<open>np.linalg.eigh\<close> on a 2x2 matrix
  (given by rows): \<open>None\<close> for \<open>LinAlgError\<close>, otherwise the two eigenvalues and the matrix
  whose columns are the eigenvectors. \<open>np.argmax\<close> returns the first index of the maximum.
  Every real is finite, so the \<open>np.isfinite\<close> tests of the source always pass.
\<close>

definition compute_principal_axis ::
  "(mat2 \<Rightarrow> ((real \<times> real) \<times> mat2) option) \<Rightarrow> real \<Rightarrow> uv list \<Rightarrow> uv option" where
  "compute_principal_axis eigh eps points_uv =
    (if length points_uv < 2 then None
     else
       (let sample =
              (if 20000 < length points_uv
               then strided (nat \<lceil>real (length points_uv) / 20000\<rceil>) points_uv
               else points_uv);
            mu = mean_uv sample;
            centered = map (\<lambda>(u, v). (u - fst mu, v - snd mu)) sample;
            d = real (max 1 (length centered));
            cov = ((sum_list (map (\<lambda>(a, b). a * a) centered) / d,
                    sum_list (map (\<lambda>(a, b). a * b) centered) / d),
                   (sum_list (map (\<lambda>(a, b). b * a) centered) / d,
                    sum_list (map (\<lambda>(a, b). b * b) centered) / d))
        in case eigh cov of
             None \<Rightarrow> None
           | Some ((l0, l1), ((v00, v01), (v10, v11))) \<Rightarrow>
               (let axis = (if l1 \<le> l0 then (v00, v10) else (v01, v11));
                    norm = sqrt (fst axis * fst axis + snd axis * snd axis)
                in if norm < eps then None
                   else
                     (let a = (fst axis / norm, snd axis / norm)
                      in if \<bar>snd a\<bar> \<le> \<bar>fst a\<bar>
                         then (if fst a < 0 then Some (- fst a, - snd a) else Some a)
                         else (if snd a < 0 then Some (- fst a, - snd a) else Some a)))))"

text \<open>
  \<open>normalize_local_uv\<close>. \<open>np.min\<close> of an empty array raises \<open>ValueError\<close>.
\<close>

definition normalize_local_uv :: "real \<Rightarrow> uv list \<Rightarrow> error + (uv list \<times> real \<times> real)" where
  "normalize_local_uv eps uvs =
    (if uvs = [] then Inl ValueError
     else
       (let u = map fst uvs;
            v = map snd uvs;
            min_u = Min (set u);
            max_u = Max (set u);
            min_v = Min (set v);
            max_v = Max (set v);
            span_u = max_u - min_u;
            span_v = max_v - min_v
        in Inr (map (\<lambda>(a, b). ((a - min_u) / max eps span_u, (b - min_v) / max eps span_v)) uvs,
                span_u, span_v)))"

definition fallback_t_from_bbox :: "real \<Rightarrow> uv list \<Rightarrow> error + real list" where
  "fallback_t_from_bbox eps puvs =
    (case normalize_local_uv eps puvs of
       Inl e \<Rightarrow> Inl e
     | Inr (local_uv, span_u, span_v) \<Rightarrow>
         if span_u < eps \<and> span_v < eps then Inr (replicate (length puvs) (1 / 2))
         else if span_v \<le> span_u then Inr (map fst local_uv)
         else Inr (map snd local_uv))"

text \<open>The projections \<open>t_raw = (pixel_uvs - center) @ axis\<close> of \<open>compute_local_t\<close>.\<close>

definition project_onto :: "uv \<Rightarrow> uv \<Rightarrow> uv list \<Rightarrow> real list" where
  "project_onto center axis puvs =
    map (\<lambda>(u, v). (u - fst center) * fst axis + (v - snd center) * snd axis) puvs"

definition compute_local_t ::
  "(mat2 \<Rightarrow> ((real \<times> real) \<times> mat2) option) \<Rightarrow> real \<Rightarrow> uv list \<Rightarrow> uv list \<Rightarrow> error + real list" where
  "compute_local_t eigh eps puvs axis_source_uvs =
    (case compute_principal_axis eigh eps axis_source_uvs of
       None \<Rightarrow> map_sum id clamp01_array (fallback_t_from_bbox eps puvs)
     | Some axis \<Rightarrow>
         (let center = mean_uv axis_source_uvs;
              t_raw = project_onto center axis puvs
          in if t_raw = [] then Inl ValueError
             else
               (let t_min = Min (set t_raw);
                    t_max = Max (set t_raw);
                    span = t_max - t_min
                in if span < eps
                   then map_sum id clamp01_array (fallback_t_from_bbox eps puvs)
                   else Inr (clamp01_array (map (\<lambda>t. (t - t_min) / span) t_raw)))))"

section \<open>Compositor\<close>

type_synonym raster = "rgba list list"

text \<open>
  A NumPy integer index \<open>i\<close> on an axis of size \<open>n\<close>: a negative index counts from the
  end, and an index outside \<open>[-n, n)\<close> raises \<open>IndexError\<close> (\<open>None\<close> here).
\<close>

definition py_index :: "int \<Rightarrow> int \<Rightarrow> nat option" where
  "py_index n i =
    (if 0 \<le> i \<and> i < n then Some (nat i)
     else if - n \<le> i \<and> i < 0 then Some (nat (n + i))
     else None)"

text \<open>
  The scatter writes \<open>out[y, x, 0:3] = rgb\<close> and \<open>out[y, x, 3] = 255\<close>, one pixel at a
  time: each indexed cell receives its colour and the alpha 255.
\<close>

fun scatter_write :: "raster \<Rightarrow> int \<Rightarrow> int \<Rightarrow> (pixel \<times> rgb) list \<Rightarrow> error + raster" where
  "scatter_write out width height [] = Inr out"
| "scatter_write out width height (((x, y), (r, g, b)) # rest) =
    (case (py_index height y, py_index width x) of
       (Some yi, Some xi) \<Rightarrow>
         scatter_write (out[yi := (out ! yi)[xi := (r, g, b, 255)]]) width height rest
     | _ \<Rightarrow> Inl IndexError)"

text \<open>The per-pixel UVs an island is shaded with (the first \<open>if\<close> of the loop body).\<close>

definition island_pixel_uvs :: "int \<Rightarrow> int \<Rightarrow> IslandData \<Rightarrow> uv list" where
  "island_pixel_uvs width height island =
    (case pixel_uvs island of
       Some uvs \<Rightarrow>
         if length uvs = length (pixels island) then uvs
         else infer_uvs_from_pixels (pixels island) width height
     | None \<Rightarrow> infer_uvs_from_pixels (pixels island) width height)"

text \<open>The points the axis is fitted to (the second \<open>if\<close> of the loop body).\<close>

definition island_axis_source :: "IslandData \<Rightarrow> uv list \<Rightarrow> uv list" where
  "island_axis_source island puvs =
    (case uv_points island of
       None \<Rightarrow> puvs
     | Some ps \<Rightarrow> if ps = [] then puvs else ps)"

text \<open>The colours of one island: \<open>t\<close>, the palette, the interpolation and the conversion.\<close>

definition shade_island ::
  "(nat \<Rightarrow> string \<Rightarrow> 8 word list) \<Rightarrow> (mat2 \<Rightarrow> ((real \<times> real) \<times> mat2) option) \<Rightarrow>
   int \<Rightarrow> int \<Rightarrow> IslandData \<Rightarrow> error + rgb list" where
  "shade_island blake2b eigh width height island =
    (let puvs = island_pixel_uvs width height island;
         axis_source = island_axis_source island puvs
     in case compute_local_t eigh EPS puvs axis_source of
          Inl e \<Rightarrow> Inl e
        | Inr t \<Rightarrow>
            (let (left_hsv, right_hsv) = palette_for_island blake2b (island_id island)
             in Inr (hsv_to_rgb_np (lerp_hsv left_hsv right_hsv t))))"

fun render_loop ::
  "(nat \<Rightarrow> string \<Rightarrow> 8 word list) \<Rightarrow> (mat2 \<Rightarrow> ((real \<times> real) \<times> mat2) option) \<Rightarrow>
   int \<Rightarrow> int \<Rightarrow> raster \<Rightarrow> IslandData list \<Rightarrow> error + raster" where
  "render_loop blake2b eigh width height out [] = Inr out"
| "render_loop blake2b eigh width height out (island # rest) =
    (if pixels island = [] then render_loop blake2b eigh width height out rest
     else
       (case shade_island blake2b eigh width height island of
          Inl e \<Rightarrow> Inl e
        | Inr rgb \<Rightarrow>
            (case scatter_write out width height (zip (pixels island) rgb) of
               Inl e \<Rightarrow> Inl e
             | Inr out' \<Rightarrow> render_loop blake2b eigh width height out' rest)))"

definition render_island_gradients ::
  "(nat \<Rightarrow> string \<Rightarrow> 8 word list) \<Rightarrow> (mat2 \<Rightarrow> ((real \<times> real) \<times> mat2) option) \<Rightarrow>
   int \<Rightarrow> int \<Rightarrow> IslandData list \<Rightarrow> bool \<Rightarrow> error + raster" where
  "render_island_gradients blake2b eigh width height islands transparent_background =
    render_loop blake2b eigh width height
      (replicate (nat height)
        (replicate (nat width) (0, 0, 0, if transparent_background then 0 else 255)))
      islands"

section \<open>Resolver: ID-map mode\<close>

text \<open>
  What \<open>np.asarray(Image.open(path))\<close> yields: a two-dimensional array (rows of values), or
  a three-dimensional one (rows of pixels, each a list of 8-bit channels).
\<close>

datatype decoded_image = Gray "int list list" | Multi "8 word list list list"

text \<open>The second component of the shape of a two-dimensional array.\<close>

definition row_width :: "'a list list \<Rightarrow> nat" where
  "row_width rows = (case rows of [] \<Rightarrow> 0 | r # _ \<Rightarrow> length r)"

text \<open>\<open>arr.shape[2]\<close>.\<close>

definition channel_count :: "8 word list list list \<Rightarrow> nat" where
  "channel_count arr =
    (case arr of [] \<Rightarrow> 0 | r # _ \<Rightarrow> (case r of [] \<Rightarrow> 0 | p # _ \<Rightarrow> length p))"

text \<open>
  One cell of \<open>ids\<close> in \<open>load_id_map\<close>: the packed RGB value, replaced by the literal 0
  where the array has an alpha channel and the pixel's alpha is 0.
\<close>

definition pack_pixel :: "nat \<Rightarrow> 8 word list \<Rightarrow> int" where
  "pack_pixel channels p =
    (case p of
       r # g # b # rest \<Rightarrow>
         (if 4 \<le> channels \<and> (case rest of a # _ \<Rightarrow> a = 0 | [] \<Rightarrow> False) then 0
          else push_bit 16 (uint r) OR push_bit 8 (uint g) OR uint b)
     | _ \<Rightarrow> 0)"

definition load_id_map :: "decoded_image \<Rightarrow> error + int list list" where
  "load_id_map img =
    (case img of
       Gray arr \<Rightarrow> Inr arr
     | Multi arr \<Rightarrow>
         if 3 \<le> channel_count arr then Inr (map (map (pack_pixel (channel_count arr))) arr)
         else Inl ValueError)"

text \<open>
  \<open>np.where(ids == v)\<close> followed by \<open>np.column_stack((xs, ys)).astype(np.int32)\<close>: the
  coordinates of the cells holding \<open>v\<close>, in row-major order, as \<open>(x, y)\<close>.
\<close>

definition cells_equal :: "int list list \<Rightarrow> int \<Rightarrow> pixel list" where
  "cells_equal ids v =
    concat (map (\<lambda>(y, row).
      map (\<lambda>(x, c). (to_int32 (int x), to_int32 (int y)))
        (filter (\<lambda>(x, c). c = v) (enumerate 0 row))) (enumerate 0 ids))"

text \<open>
  \<open>islands_from_id_map\<close>. Its argument is two-dimensional by its type, so the \<open>ndim\<close> test
  of the source cannot fail; no other statement of the function raises.
\<close>

definition islands_from_id_map :: "int list list \<Rightarrow> int \<Rightarrow> error + (IslandData list \<times> int \<times> int)" where
  "islands_from_id_map ids background_id =
    (let height = int (length ids);
         width = int (row_width ids);
         unique_ids = filter (\<lambda>v. v \<noteq> background_id) (sort (remdups (concat ids)));
         islands =
           concat (map (\<lambda>iid.
             (let pxs = cells_equal ids iid
              in if pxs = [] then []
                 else [\<lparr>island_id = IntId iid, pixels = pxs, pixel_uvs = None, uv_points = None\<rparr>]))
             (sort unique_ids))
     in Inr (islands, width, height))"

section \<open>Resolver: explicit mode\<close>

text \<open>
  One element of \<open>payload["islands"]\<close>: a JSON object with the keys the source reads, or
  anything else (\<open>NotDict\<close>, which the loop skips). A key that is absent, or present with
  the value \<open>null\<close> where the source tests for \<open>None\<close>, is \<open>None\<close>; values of a JSON
  type other than the one a field has here are outside the model. The mask is the
  decoded 8-bit raster that \<open>Image.open(path).convert("L")\<close> returns.
\<close>

record explicit_entry =
  entry_id :: "island_id option"
  entry_pixels :: "int list list option"
  entry_mask :: "8 word list list option"
  entry_uvs :: "real list list option"
  entry_uv_points :: "real list list option"

datatype json_entry = NotDict | Dict explicit_entry

text \<open>
  \<open>np.asarray(points, dtype=...)\<close> followed by the shape test. A list of rows is an
  \<open>(N,2)\<close> array exactly when it is not empty and every row has two entries: the empty
  list has one dimension, rows of another common length fail the test on \<open>shape[1]\<close>, and
  rows of unequal lengths are refused by NumPy itself with a \<open>ValueError\<close>.
\<close>

fun pair_of_row :: "'a list \<Rightarrow> ('a \<times> 'a) option" where
  "pair_of_row [a, b] = Some (a, b)"
| "pair_of_row _ = None"

definition as_n_by_2 :: "'a list list \<Rightarrow> ('a \<times> 'a) list option" where
  "as_n_by_2 rows = (if rows = [] then None else those (map pair_of_row rows))"

definition parse_float_points :: "real list list \<Rightarrow> error + uv list" where
  "parse_float_points points =
    (case as_n_by_2 points of Some arr \<Rightarrow> Inr arr | None \<Rightarrow> Inl ValueError)"

text \<open>An integer outside the 64-bit range makes \<open>np.asarray\<close> raise \<open>OverflowError\<close>.\<close>

definition fits_int64 :: "int \<Rightarrow> bool" where
  "fits_int64 i = (- 9223372036854775808 \<le> i \<and> i \<le> 9223372036854775807)"

definition parse_int_points :: "int list list \<Rightarrow> error + pixel list" where
  "parse_int_points points =
    (if \<not> list_all (list_all fits_int64) points then Inl OverflowError
     else (case as_n_by_2 points of Some arr \<Rightarrow> Inr arr | None \<Rightarrow> Inl ValueError))"

text \<open>\<open>mask_pixels_from_image\<close>, from the decoded mask: the cells with a value above 0.\<close>

definition mask_pixels_from_image :: "8 word list list \<Rightarrow> pixel list" where
  "mask_pixels_from_image arr =
    concat (map (\<lambda>(y, row).
      map (\<lambda>(x, c). (to_int32 (int x), to_int32 (int y)))
        (filter (\<lambda>(x, c). 0 < c) (enumerate 0 row))) (enumerate 0 arr))"

text \<open>
  \<open>normalize_pixels\<close>. Its argument is a list of pairs, so the shape test cannot fail.
  \<open>np.unique(..., axis=0)\<close> returns the distinct rows in lexicographic order.
\<close>

definition normalize_pixels :: "pixel list \<Rightarrow> int \<Rightarrow> int \<Rightarrow> pixel list" where
  "normalize_pixels pxs width height =
    (let p = filter (\<lambda>(x, y). 0 \<le> x \<and> x < width \<and> 0 \<le> y \<and> y < height) pxs
     in if p = [] then []
        else sort (remdups (map (\<lambda>(x, y). (to_int32 x, to_int32 y)) p)))"

text \<open>
  The payload: the keys of the JSON object that the resolver reads. \<open>id_map\<close> is the
  decoded image at the path the payload names.
\<close>

record payload =
  p_width :: "int option"
  p_height :: "int option"
  p_background_id :: "int option"
  p_id_map :: "decoded_image option"
  p_islands :: "json_entry list option"
  p_uv_vertices :: "real list list option"
  p_faces :: "int list list option"
  p_triangles :: "real list list list option"

text \<open>The first entry that is an object with a mask, for inferring the canvas size.\<close>

fun first_mask :: "json_entry list \<Rightarrow> 8 word list list option" where
  "first_mask [] = None"
| "first_mask (NotDict # es) = first_mask es"
| "first_mask (Dict e # es) = (case entry_mask e of Some m \<Rightarrow> Some m | None \<Rightarrow> first_mask es)"

text \<open>
  The body of the loop over \<open>islands_raw\<close> for an entry that is an object: an error, no
  island (the entry has no pixel left), or the island to append. The \<open>float32\<close> casts of
  the UV arrays are the identity on reals.
\<close>

definition explicit_island :: "int \<Rightarrow> int \<Rightarrow> nat \<Rightarrow> explicit_entry \<Rightarrow> error + IslandData option" where
  "explicit_island width height idx entry =
    (let iid = (case entry_id entry of Some i \<Rightarrow> i | None \<Rightarrow> IntId (int idx + 1))
     in case (case entry_pixels entry of
                Some ps \<Rightarrow> parse_int_points ps
              | None \<Rightarrow>
                  (case entry_mask entry of
                     Some m \<Rightarrow> Inr (mask_pixels_from_image m)
                   | None \<Rightarrow> Inl ValueError)) of
          Inl e \<Rightarrow> Inl e
        | Inr raw \<Rightarrow>
            (let pxs = normalize_pixels raw width height
             in if pxs = [] then Inr None
                else
                  (case (case entry_uvs entry of
                           None \<Rightarrow> Inr None
                         | Some us \<Rightarrow>
                             (case parse_float_points us of
                                Inl e \<Rightarrow> Inl e
                              | Inr uvs \<Rightarrow>
                                  Inr (if length uvs = length pxs then Some uvs else None))) of
                     Inl e \<Rightarrow> Inl e
                   | Inr puvs \<Rightarrow>
                       (case (case entry_uv_points entry of
                                None \<Rightarrow> Inr None
                              | Some ups \<Rightarrow> map_sum id Some (parse_float_points ups)) of
                          Inl e \<Rightarrow> Inl e
                        | Inr upts \<Rightarrow>
                            Inr (Some \<lparr>island_id = iid, pixels = pxs,
                                       pixel_uvs = puvs, uv_points = upts\<rparr>)))))"

fun explicit_loop ::
  "int \<Rightarrow> int \<Rightarrow> nat \<Rightarrow> json_entry list \<Rightarrow> IslandData list \<Rightarrow> error + IslandData list" where
  "explicit_loop width height idx [] islands = Inr islands"
| "explicit_loop width height idx (NotDict # es) islands =
    explicit_loop width height (Suc idx) es islands"
| "explicit_loop width height idx (Dict e # es) islands =
    (case explicit_island width height idx e of
       Inl err \<Rightarrow> Inl err
     | Inr None \<Rightarrow> explicit_loop width height (Suc idx) es islands
     | Inr (Some island) \<Rightarrow> explicit_loop width height (Suc idx) es (islands @ [island]))"

definition islands_from_explicit_payload :: "payload \<Rightarrow> error + (IslandData list \<times> int \<times> int)" where
  "islands_from_explicit_payload pl =
    (case p_islands pl of
       None \<Rightarrow> Inl ValueError
     | Some islands_raw \<Rightarrow>
         if islands_raw = [] then Inl ValueError
         else
           (let (width, height) =
                  (if p_width pl = None \<or> p_height pl = None
                   then (case first_mask islands_raw of
                           Some m \<Rightarrow> (Some (int (row_width m)), Some (int (length m)))
                         | None \<Rightarrow> (p_width pl, p_height pl))
                   else (p_width pl, p_height pl))
            in case (width, height) of
                 (Some w, Some h) \<Rightarrow>
                   if w \<le> 0 \<or> h \<le> 0 then Inl ValueError
                   else
                     (case explicit_loop w h 0 islands_raw [] of
                        Inl e \<Rightarrow> Inl e
                      | Inr islands \<Rightarrow>
                          if islands = [] then Inl ValueError else Inr (islands, w, h))
               | _ \<Rightarrow> Inl ValueError))"

section \<open>Resolver: mesh mode\<close>

type_synonym triangle = "uv \<times> uv \<times> uv"

fun triple_of_row :: "'a list \<Rightarrow> ('a \<times> 'a \<times> 'a) option" where
  "triple_of_row [a, b, c] = Some (a, b, c)"
| "triple_of_row _ = None"

text \<open>The shape test for \<open>faces\<close>: an \<open>(M,3)\<close> array.\<close>

definition as_n_by_3 :: "'a list list \<Rightarrow> ('a \<times> 'a \<times> 'a) list option" where
  "as_n_by_3 rows = (if rows = [] then None else those (map triple_of_row rows))"

text \<open>The shape test for \<open>triangles\<close>: an \<open>(M,3,2)\<close> array.\<close>

definition as_triangles :: "real list list list \<Rightarrow> triangle list option" where
  "as_triangles ts =
    (if ts = [] then None
     else those (map (\<lambda>t. case those (map pair_of_row t) of
                             Some ps \<Rightarrow> triple_of_row ps
                           | None \<Rightarrow> None) ts))"

text \<open>
  The dictionaries \<open>triangles_by_vertex\<close> and \<open>triangles_by_uv\<close>: a key is mapped to the
  indices of the triangles that have it as a corner, in the order the loop appends them.
  \<open>setdefault(key, []).append(tri_idx)\<close> updates the entry, and \<open>get(key, [])\<close> reads it,
  an absent key being the empty list. \<open>rows\<close> holds the corner keys of each triangle.
\<close>

definition triangles_by_key :: "'k list list \<Rightarrow> 'k \<Rightarrow> nat list" where
  "triangles_by_key rows =
    foldl (\<lambda>m (tri_idx, row). foldl (\<lambda>m key. m(key := m key @ [tri_idx])) m row)
      (\<lambda>_. []) (enumerate 0 rows)"

text \<open>
  The innermost loop body: a neighbour that is not yet visited is marked and pushed. The
  stack is a Python list, pushed and popped at its end. Every index the dictionary holds
  is the index of a triangle, so the read \<open>visited[nbr]\<close> is always in range. (\<open>cmp\<close>
  stands for the variable \<open>comp\<close> of the source.)
\<close>

definition visit :: "nat list \<times> bool list \<Rightarrow> nat \<Rightarrow> nat list \<times> bool list" where
  "visit sv nbr =
    (case sv of (stack, visited) \<Rightarrow>
      if nbr < length visited \<and> \<not> visited ! nbr
      then (stack @ [nbr], visited[nbr := True])
      else (stack, visited))"

definition visit_corners ::
  "('k \<Rightarrow> nat list) \<Rightarrow> 'k list \<Rightarrow> nat list \<times> bool list \<Rightarrow> nat list \<times> bool list" where
  "visit_corners tbk corners sv = foldl (\<lambda>sv key. foldl visit sv (tbk key)) sv corners"

lemma unvisited_update:
  "n < length vs \<Longrightarrow> \<not> vs ! n \<Longrightarrow>
   Suc (length (filter Not (vs[n := True]))) = length (filter Not vs)"
proof (induction vs arbitrary: n)
  case Nil
  then show ?case by simp
next
  case (Cons v vs)
  then show ?case by (cases n) auto
qed

lemma visit_measure:
  "length (fst (visit sv nbr)) + length (filter Not (snd (visit sv nbr))) =
   length (fst sv) + length (filter Not (snd sv))"
proof (cases sv)
  case (Pair stack visited)
  then show ?thesis
    using unvisited_update [of nbr visited] by (auto simp: visit_def)
qed

lemma foldl_visit_measure:
  "length (fst (foldl visit sv nbrs)) + length (filter Not (snd (foldl visit sv nbrs))) =
   length (fst sv) + length (filter Not (snd sv))"
  by (induction nbrs arbitrary: sv) (simp_all add: visit_measure)

lemma visit_corners_measure:
  "length (fst (visit_corners tbk corners sv)) +
   length (filter Not (snd (visit_corners tbk corners sv))) =
   length (fst sv) + length (filter Not (snd sv))"
  unfolding visit_corners_def
  by (induction corners arbitrary: sv) (simp_all add: foldl_visit_measure)

text \<open>The \<open>while stack\<close> loop: it returns the visited flags and the component.\<close>

function dfs_loop ::
  "('k \<Rightarrow> nat list) \<Rightarrow> 'k list list \<Rightarrow> nat list \<Rightarrow> bool list \<Rightarrow> nat list \<Rightarrow> bool list \<times> nat list" where
  "dfs_loop tbk rows stack visited cmp =
    (if stack = [] then (visited, cmp)
     else
       (let tri_idx = last stack;
            sv = visit_corners tbk (rows ! tri_idx) (butlast stack, visited)
        in dfs_loop tbk rows (fst sv) (snd sv) (cmp @ [tri_idx])))"
  by pat_completeness auto
termination
proof (relation "measure (\<lambda>(tbk, rows, stack, visited, cmp). length stack + length (filter Not visited))")
  show "wf (measure (\<lambda>(tbk :: 'k \<Rightarrow> nat list, rows :: 'k list list, stack, visited, cmp :: nat list).
    length stack + length (filter Not visited)))"
    by simp
next
  fix tbk :: "'k \<Rightarrow> nat list" and rows :: "'k list list" and stack visited and cmp :: "nat list"
    and tri_idx sv
  assume ne: "stack \<noteq> []" and sv: "sv = visit_corners tbk (rows ! tri_idx) (butlast stack, visited)"
  have "length (fst sv) + length (filter Not (snd sv)) = length (butlast stack) + length (filter Not visited)"
    unfolding sv using visit_corners_measure [of tbk "rows ! tri_idx" "(butlast stack, visited)"] by simp
  moreover from ne have "length (butlast stack) < length stack" by (cases stack rule: rev_cases) simp_all
  ultimately show "((tbk, rows, fst sv, snd sv, cmp @ [tri_idx]), (tbk, rows, stack, visited, cmp))
    \<in> measure (\<lambda>(tbk, rows, stack, visited, cmp). length stack + length (filter Not visited))"
    by simp
qed

text \<open>The loop over the start triangles.\<close>

fun components_loop ::
  "('k \<Rightarrow> nat list) \<Rightarrow> 'k list list \<Rightarrow> nat list \<Rightarrow> bool list \<Rightarrow> nat list list \<Rightarrow> nat list list" where
  "components_loop tbk rows [] visited components = components"
| "components_loop tbk rows (start # rest) visited components =
    (if visited ! start then components_loop tbk rows rest visited components
     else
       (let (visited', cmp) = dfs_loop tbk rows [start] (visited[start := True]) []
        in components_loop tbk rows rest visited'
             (if cmp \<noteq> [] then components @ [cmp] else components)))"

text \<open>
  The two component finders of the source are the same traversal, over the vertex indices
  of the faces and over the quantized corners of the raw triangles.
\<close>

definition connected_components :: "'k list list \<Rightarrow> nat list list" where
  "connected_components rows =
    components_loop (triangles_by_key rows) rows [0..<length rows]
      (replicate (length rows) False) []"

definition connected_components_from_faces :: "(int \<times> int \<times> int) list \<Rightarrow> nat list list" where
  "connected_components_from_faces faces =
    connected_components (map (\<lambda>(a, b, c). [a, b, c]) faces)"

definition quantized_uv_key :: "real \<Rightarrow> real \<Rightarrow> int \<times> int" where
  "quantized_uv_key u v = (np_round (u / (1 / 1000000)), np_round (v / (1 / 1000000)))"

definition connected_components_from_raw_triangles :: "triangle list \<Rightarrow> nat list list" where
  "connected_components_from_raw_triangles triangles_uv =
    connected_components
      (map (\<lambda>(a, b, c). map (\<lambda>p. quantized_uv_key (fst p) (snd p)) [a, b, c]) triangles_uv)"

text \<open>\<open>uv_to_px\<close>, applied to the three corners of one triangle.\<close>

definition uv_to_px1 :: "uv \<Rightarrow> int \<Rightarrow> int \<Rightarrow> uv" where
  "uv_to_px1 p width height =
    (max 0 (min 1 (fst p)) * of_int (max 1 (width - 1)),
     (1 - max 0 (min 1 (snd p))) * of_int (max 1 (height - 1)))"

definition uv_to_px :: "triangle \<Rightarrow> int \<Rightarrow> int \<Rightarrow> triangle" where
  "uv_to_px tri width height =
    (case tri of (a, b, c) \<Rightarrow>
      (uv_to_px1 a width height, uv_to_px1 b width height, uv_to_px1 c width height))"

text \<open>
  The last three statements of \<open>rasterize_triangle_into_map\<close>: inside the window, a cell
  selected by the mask (\<open>tri_mask\<close>) that holds the background id receives the island id.
\<close>

definition paint_window ::
  "int list list \<Rightarrow> int \<Rightarrow> int \<Rightarrow> int \<Rightarrow> int \<Rightarrow> (int \<Rightarrow> int \<Rightarrow> bool) \<Rightarrow> int \<Rightarrow> int \<Rightarrow> int list list" where
  "paint_window id_map min_x max_x min_y max_y tri_mask iid background_id =
    map (\<lambda>(y, row).
      map (\<lambda>(x, c).
        if min_y \<le> int y \<and> int y \<le> max_y \<and> min_x \<le> int x \<and> int x \<le> max_x \<and>
           tri_mask (int x) (int y) \<and> c = background_id
        then iid else c) (enumerate 0 row)) (enumerate 0 id_map)"

text \<open>The barycentric test of one grid point.\<close>

definition inside_triangle :: "triangle \<Rightarrow> real \<Rightarrow> int \<Rightarrow> int \<Rightarrow> bool" where
  "inside_triangle tri_px den gx gy =
    (case tri_px of ((x0, y0), (x1, y1), (x2, y2)) \<Rightarrow>
      (let w0 = ((y1 - y2) * (of_int gx - x2) + (x2 - x1) * (of_int gy - y2)) / den;
           w1 = ((y2 - y0) * (of_int gx - x2) + (x0 - x2) * (of_int gy - y2)) / den;
           w2 = 1 - w0 - w1
       in - (1 / 1000000) \<le> w0 \<and> - (1 / 1000000) \<le> w1 \<and> - (1 / 1000000) \<le> w2))"

definition rasterize_triangle_into_map :: "int list list \<Rightarrow> triangle \<Rightarrow> int \<Rightarrow> int \<Rightarrow> int list list" where
  "rasterize_triangle_into_map id_map tri_px iid background_id =
    (case tri_px of ((x0, y0), (x1, y1), (x2, y2)) \<Rightarrow>
      (let min_x = max 0 \<lfloor>min x0 (min x1 x2)\<rfloor>;
           max_x = min (int (row_width id_map) - 1) \<lceil>max x0 (max x1 x2)\<rceil>;
           min_y = max 0 \<lfloor>min y0 (min y1 y2)\<rfloor>;
           max_y = min (int (length id_map) - 1) \<lceil>max y0 (max y1 y2)\<rceil>
       in if max_x < min_x \<or> max_y < min_y then id_map
          else
            (let den = (y1 - y2) * (x0 - x2) + (x2 - x1) * (y0 - y2)
             in if \<bar>den\<bar> < 1 / 1000000000000 then id_map
                else
                  (let tri_mask = inside_triangle tri_px den
                   in if \<not> list_ex (\<lambda>gy. list_ex (\<lambda>gx. tri_mask gx gy) [min_x..max_x]) [min_y..max_y]
                      then id_map
                      else paint_window id_map min_x max_x min_y max_y tri_mask iid background_id))))"

text \<open>\<open>while next_island_id == background_id: next_island_id += 1\<close>.\<close>

function skip_background :: "int \<Rightarrow> int \<Rightarrow> int" where
  "skip_background next_island_id background_id =
    (if next_island_id = background_id then skip_background (next_island_id + 1) background_id
     else next_island_id)"
  by pat_completeness auto
termination
  by (relation "measure (\<lambda>(n, b). if n = b then 1 else 0)") auto

text \<open>
  The body of the loop over the components. The state is the ID raster, the islands found
  so far and \<open>next_island_id\<close>; \<open>comp_tris\<close> are the triangles of the component.
\<close>

definition mesh_component ::
  "int \<Rightarrow> int \<Rightarrow> int \<Rightarrow> int list list \<times> IslandData list \<times> int \<Rightarrow> triangle list \<Rightarrow>
   int list list \<times> IslandData list \<times> int" where
  "mesh_component width height background_id st comp_tris =
    (case st of (id_map, islands, next_island_id) \<Rightarrow>
      (let iid = skip_background next_island_id background_id;
           next_island_id' = iid + 1;
           id_map' = foldl (\<lambda>m tri_uv.
                        rasterize_triangle_into_map m (uv_to_px tri_uv width height) iid background_id)
                      id_map comp_tris;
           pxs = cells_equal id_map' iid
       in if pxs = [] then (id_map', islands, next_island_id')
          else (id_map',
                islands @ [\<lparr>island_id = IntId iid, pixels = pxs, pixel_uvs = None,
                            uv_points = Some (concat (map (\<lambda>(a, b, c). [a, b, c]) comp_tris))\<rparr>],
                next_island_id')))"

text \<open>
  The triangles and their components, from whichever form of mesh the payload gives
  (the \<open>if\<close>/\<open>elif\<close>/\<open>else\<close> of \<open>islands_from_mesh_payload\<close>).
\<close>

definition mesh_triangles :: "payload \<Rightarrow> error + (triangle list \<times> nat list list)" where
  "mesh_triangles pl =
    (case (p_uv_vertices pl, p_faces pl) of
       (Some uv_vertices, Some faces) \<Rightarrow>
         (case parse_float_points uv_vertices of
            Inl e \<Rightarrow> Inl e
          | Inr uv_vertices_arr \<Rightarrow>
              if \<not> list_all (list_all fits_int64) faces then Inl OverflowError
              else
                (case as_n_by_3 faces of
                   None \<Rightarrow> Inl ValueError
                 | Some faces_arr \<Rightarrow>
                     if list_ex (\<lambda>(a, b, c). a < 0 \<or> b < 0 \<or> c < 0 \<or>
                           int (length uv_vertices_arr) \<le> a \<or>
                           int (length uv_vertices_arr) \<le> b \<or>
                           int (length uv_vertices_arr) \<le> c) faces_arr
                     then Inl ValueError
                     else Inr (map (\<lambda>(a, b, c). (uv_vertices_arr ! nat a, uv_vertices_arr ! nat b,
                                                   uv_vertices_arr ! nat c)) faces_arr,
                               connected_components_from_faces faces_arr)))
     | _ \<Rightarrow>
         (case p_triangles pl of
            Some triangles \<Rightarrow>
              (case as_triangles triangles of
                 None \<Rightarrow> Inl ValueError
               | Some triangles_uv \<Rightarrow>
                   Inr (triangles_uv, connected_components_from_raw_triangles triangles_uv))
          | None \<Rightarrow> Inl ValueError))"

text \<open>
  \<open>islands_from_mesh_payload\<close>. \<open>np.full\<close> with the 64-bit element type refuses a
  background id outside the 64-bit range.
\<close>

definition islands_from_mesh_payload :: "payload \<Rightarrow> error + (IslandData list \<times> int \<times> int)" where
  "islands_from_mesh_payload pl =
    (let width = (case p_width pl of Some w \<Rightarrow> w | None \<Rightarrow> 0);
         height = (case p_height pl of Some h \<Rightarrow> h | None \<Rightarrow> 0)
     in if width \<le> 0 \<or> height \<le> 0 then Inl ValueError
        else
          (let background_id = (case p_background_id pl of Some b \<Rightarrow> b | None \<Rightarrow> 0)
           in case mesh_triangles pl of
                Inl e \<Rightarrow> Inl e
              | Inr (triangles_uv, components) \<Rightarrow>
                  if \<not> fits_int64 background_id then Inl OverflowError
                  else
                    (let id_map = replicate (nat height) (replicate (nat width) background_id);
                         st = foldl (mesh_component width height background_id) (id_map, [], 1)
                                (map (map ((!) triangles_uv)) components);
                         islands = fst (snd st)
                     in if islands = [] then Inl ValueError else Inr (islands, width, height))))"

section \<open>Input dispatch and the pipeline\<close>

text \<open>\<open>x is not None\<close>.\<close>

definition is_not_none :: "'a option \<Rightarrow> bool" where
  "is_not_none x = (case x of Some _ \<Rightarrow> True | None \<Rightarrow> False)"

text \<open>
  \<open>load_islands\<close>. \<open>cli_id_map\<close> is the decoded image at the path given on the command
  line, if any.
\<close>

definition load_islands ::
  "payload \<Rightarrow> decoded_image option \<Rightarrow> int option \<Rightarrow> error + (IslandData list \<times> int \<times> int)" where
  "load_islands pl cli_id_map background_id_override =
    (let background_id =
           (case background_id_override of
              Some b \<Rightarrow> b
            | None \<Rightarrow> (case p_background_id pl of Some b \<Rightarrow> b | None \<Rightarrow> 0));
         id_map_path = (case cli_id_map of Some i \<Rightarrow> Some i | None \<Rightarrow> p_id_map pl)
     in case id_map_path of
          Some img \<Rightarrow>
            (case load_id_map img of
               Inl e \<Rightarrow> Inl e
             | Inr ids \<Rightarrow> islands_from_id_map ids background_id)
        | None \<Rightarrow>
            if is_not_none (p_islands pl) then islands_from_explicit_payload pl
            else if is_not_none (p_uv_vertices pl) \<or> is_not_none (p_triangles pl)
            then islands_from_mesh_payload pl
            else Inl ValueError)"

text \<open>
  \<open>main\<close>, between reading the payload and writing the PNG: the raster handed to the
  encoder, or the error that ends the run.
\<close>

definition main ::
  "(nat \<Rightarrow> string \<Rightarrow> 8 word list) \<Rightarrow> (mat2 \<Rightarrow> ((real \<times> real) \<times> mat2) option) \<Rightarrow>
   payload \<Rightarrow> decoded_image option \<Rightarrow> int option \<Rightarrow> bool \<Rightarrow> error + raster" where
  "main blake2b eigh pl cli_id_map background_id_override opaque_bg =
    (case load_islands pl cli_id_map background_id_override of
       Inl e \<Rightarrow> Inl e
     | Inr (islands, width, height) \<Rightarrow>
         render_island_gradients blake2b eigh width height islands (\<not> opaque_bg))"

text \<open>The payload of a run without \<open>--input\<close>: \<open>payload = {}\<close>.\<close>

definition empty_payload :: payload where
  "empty_payload =
    \<lparr>p_width = None, p_height = None, p_background_id = None, p_id_map = None,
     p_islands = None, p_uv_vertices = None, p_faces = None, p_triangles = None\<rparr>"

section \<open>Predicates of the specification\<close>

text \<open>An array of shape \<open>(h, w)\<close>.\<close>

definition rect :: "nat \<Rightarrow> nat \<Rightarrow> 'a list list \<Rightarrow> bool" where
  "rect w h m = (length m = h \<and> list_all (\<lambda>r. length r = w) m)"

text \<open>
  First writer wins: \<open>m'\<close> has the shape of \<open>m\<close>, and a cell either keeps its value or
  held the background id and now holds the island id.
\<close>

definition painted :: "int \<Rightarrow> int \<Rightarrow> int list list \<Rightarrow> int list list \<Rightarrow> bool" where
  "painted bg iid m m' =
    (length m' = length m \<and>
     (\<forall>y < length m. length (m' ! y) = length (m ! y) \<and>
        (\<forall>x < length (m ! y). m' ! y ! x = m ! y ! x \<or> (m ! y ! x = bg \<and> m' ! y ! x = iid))))"

text \<open>The pixel sets of the islands of a list are pairwise disjoint.\<close>

definition pairwise_disjoint :: "IslandData list \<Rightarrow> bool" where
  "pairwise_disjoint islands =
    (\<forall>i < length islands. \<forall>j < length islands.
       i \<noteq> j \<longrightarrow> set (pixels (islands ! i)) \<inter> set (pixels (islands ! j)) = {})"

text \<open>The pixels of an island are unique and lie on the canvas.\<close>

definition pixels_ok :: "int \<Rightarrow> int \<Rightarrow> IslandData \<Rightarrow> bool" where
  "pixels_ok width height island =
    (distinct (pixels island) \<and>
     list_all (\<lambda>(x, y). 0 \<le> x \<and> x < width \<and> 0 \<le> y \<and> y < height) (pixels island))"

text \<open>The island has the integer id \<open>v\<close>, and each of its pixels is a cell of \<open>m\<close> holding \<open>v\<close>.\<close>

definition owns :: "int list list \<Rightarrow> IslandData \<Rightarrow> int \<Rightarrow> bool" where
  "owns m island v =
    (island_id island = IntId v \<and>
     list_all (\<lambda>(x, y). 0 \<le> x \<and> 0 \<le> y \<and> nat y < length m \<and> nat x < length (m ! nat y) \<and>
                 m ! nat y ! nat x = v) (pixels island))"

text \<open>The invariant of the loop over the components in mesh mode.\<close>

definition mesh_inv :: "nat \<Rightarrow> nat \<Rightarrow> int \<Rightarrow> int list list \<times> IslandData list \<times> int \<Rightarrow> bool" where
  "mesh_inv w h bg st =
    (case st of (m, islands, next_island_id) \<Rightarrow>
      rect w h m \<and> 1 \<le> next_island_id \<and> distinct (map island_id islands) \<and>
      list_all (\<lambda>isl. \<exists>v. 1 \<le> v \<and> v < next_island_id \<and> v \<noteq> bg \<and> owns m isl v \<and>
                        pixels_ok (int w) (int h) isl) islands)"

text \<open>A decoded image is an array: its rows have one length.\<close>

definition rect_image :: "decoded_image \<Rightarrow> bool" where
  "rect_image img =
    (case img of
       Gray arr \<Rightarrow> rect (row_width arr) (length arr) arr
     | Multi arr \<Rightarrow> rect (row_width arr) (length arr) arr)"


section \<open>Properties\<close>












lemma palette_index: "nat (seed mod 4) < length PALETTE_LIBRARY"
  by (simp add: PALETTE_LIBRARY_def nat_less_iff)



section \<open>Palette and colour engine\<close>






section \<open>ID-map mode and the pipeline on small rasters\<close>

lemma pack_rgb_value:
  "push_bit 16 (uint (r :: 8 word)) OR push_bit 8 (uint (g :: 8 word)) OR uint (b :: 8 word) =
   uint r * 65536 + uint g * 256 + uint b"
proof -
  have b: "take_bit 8 (uint b) = uint b"
    by (simp add: take_bit_int_eq_self_iff) (use uint_bounded [of b] in simp)
  have low: "push_bit 8 (uint g) OR uint b = uint b + uint g * 256"
    using concat_bit_eq [of 8 "uint b" "uint g"] b
    by (simp add: concat_bit_def push_bit_eq_mult or.commute)
  have "0 \<le> uint b + uint g * 256 \<and> uint b + uint g * 256 < 65536"
    using uint_bounded [of b] uint_bounded [of g] by simp
  then have t: "take_bit 16 (uint b + uint g * 256) = uint b + uint g * 256"
    by (simp add: take_bit_int_eq_self_iff)
  have "push_bit 16 (uint r) OR (push_bit 8 (uint g) OR uint b) =
      (uint b + uint g * 256) + uint r * 65536"
    unfolding low
    using concat_bit_eq [of 16 "uint b + uint g * 256" "uint r"] t
    by (simp add: concat_bit_def push_bit_eq_mult or.commute)
  then show ?thesis by (simp add: or.assoc)
qed

text \<open>An RGB pixel, and an RGBA pixel that is not fully transparent, is packed into 24 bits.\<close>

lemma pack_pixel_rgb:
  "pack_pixel 3 [r, g, b] = uint r * 65536 + uint g * 256 + uint b \<and>
   0 \<le> pack_pixel 3 [r, g, b] \<and> pack_pixel 3 [r, g, b] < 2 ^ 24"
  using uint_bounded [of r] uint_bounded [of g] uint_bounded [of b]
  by (simp add: pack_pixel_def pack_rgb_value)

lemma pack_pixel_rgba:
  "pack_pixel 4 [r, g, b, a] = (if a = 0 then 0 else uint r * 65536 + uint g * 256 + uint b)"
  by (simp add: pack_pixel_def pack_rgb_value)

lemma scatter_write_Cons:
  "scatter_write out w h ((p, c) # rest) =
    (case (py_index h (snd p), py_index w (fst p)) of
       (Some yi, Some xi) \<Rightarrow>
         scatter_write (out[yi := (out ! yi)[xi := (fst c, fst (snd c), snd (snd c), 255)]]) w h rest
     | _ \<Rightarrow> Inl IndexError)"
  by (cases p, cases c) (simp split: option.split)

lemma id_map_1x1_islands:
  "load_islands empty_payload (Some (Gray [[v]])) bo =
    (if v = (case bo of Some b \<Rightarrow> b | None \<Rightarrow> 0) then Inr ([], 1, 1)
     else Inr ([\<lparr>island_id = IntId v, pixels = [(0, 0)], pixel_uvs = None, uv_points = None\<rparr>], 1, 1))"
  by (simp add: load_islands_def empty_payload_def load_id_map_def islands_from_id_map_def
      row_width_def cells_equal_def enumerate_eq_zip to_int32_def split: option.split)

lemma single_pixel_t:
  "compute_principal_axis eigh EPS [(1 / 2, 1 / 2)] = None \<and>
   compute_local_t eigh EPS [(1 / 2, 1 / 2)] [(1 / 2, 1 / 2)] = Inr [1 / 2]"
  by (simp add: compute_local_t_def compute_principal_axis_def fallback_t_from_bbox_def
      normalize_local_uv_def EPS_def clamp01_array_def)

lemma single_pixel_shade:
  "shade_island blake2b eigh 1 1
     \<lparr>island_id = i, pixels = [(0, 0)], pixel_uvs = None, uv_points = None\<rparr> =
   Inr (hsv_to_rgb_np (lerp_hsv (fst (palette_for_island blake2b i))
     (snd (palette_for_island blake2b i)) [1 / 2]))"
  by (simp add: shade_island_def island_pixel_uvs_def island_axis_source_def
      infer_uvs_from_pixels_def single_pixel_t case_prod_beta)

lemma single_colour:
  "hsv_to_rgb_np (lerp_hsv l r [t]) = [hsv_to_rgb1 (hd (lerp_hsv l r [t]))]"
  by (cases l, cases r) (simp add: hsv_to_rgb_np_def lerp_hsv_def)

lemma single_pixel_render:
  "render_island_gradients blake2b eigh 1 1
     [\<lparr>island_id = i, pixels = [(0, 0)], pixel_uvs = None, uv_points = None\<rparr>] transparent =
   Inr [map (\<lambda>(r, g, b). (r, g, b, 255))
     (hsv_to_rgb_np (lerp_hsv (fst (palette_for_island blake2b i))
       (snd (palette_for_island blake2b i)) [1 / 2]))]"
  by (simp add: render_island_gradients_def single_pixel_shade single_colour
      scatter_write_Cons py_index_def case_prod_beta)

text \<open>
  C9. A 1x1 ID map holding 5, with background id 0 (by default or given on the command
  line): the single pixel has one UV, so no axis is fitted and the bounding-box fallback
  gives \<open>t = 0.5\<close>; the pipeline returns a 1x1 raster whose pixel is the RGB conversion of
  the palette of id 5 interpolated at 0.5, with alpha 255.
\<close>

theorem single_pixel_id_map_scenario:
  "compute_principal_axis eigh EPS (infer_uvs_from_pixels [(0, 0)] 1 1) = None \<and>
   compute_local_t eigh EPS (infer_uvs_from_pixels [(0, 0)] 1 1)
     (infer_uvs_from_pixels [(0, 0)] 1 1) = Inr [1 / 2] \<and>
   length (hsv_to_rgb_np (lerp_hsv (fst (palette_for_island blake2b (IntId 5)))
     (snd (palette_for_island blake2b (IntId 5))) [1 / 2])) = 1 \<and>
   main blake2b eigh empty_payload (Some (Gray [[5]])) None opaque_bg =
     Inr [map (\<lambda>(r, g, b). (r, g, b, 255))
       (hsv_to_rgb_np (lerp_hsv (fst (palette_for_island blake2b (IntId 5)))
         (snd (palette_for_island blake2b (IntId 5))) [1 / 2]))] \<and>
   main blake2b eigh empty_payload (Some (Gray [[5]])) (Some 0) opaque_bg =
     Inr [map (\<lambda>(r, g, b). (r, g, b, 255))
       (hsv_to_rgb_np (lerp_hsv (fst (palette_for_island blake2b (IntId 5)))
         (snd (palette_for_island blake2b (IntId 5))) [1 / 2]))]"
proof -
  have uv: "infer_uvs_from_pixels [(0, 0)] 1 1 = [(1 / 2, 1 / 2)]"
    by (simp add: infer_uvs_from_pixels_def)
  have len: "length (hsv_to_rgb_np (lerp_hsv (fst (palette_for_island blake2b (IntId 5)))
     (snd (palette_for_island blake2b (IntId 5))) [1 / 2])) = 1"
    by (simp add: single_colour)
  have m: "main blake2b eigh empty_payload (Some (Gray [[5]])) bo opaque_bg =
     Inr [map (\<lambda>(r, g, b). (r, g, b, 255))
       (hsv_to_rgb_np (lerp_hsv (fst (palette_for_island blake2b (IntId 5)))
         (snd (palette_for_island blake2b (IntId 5))) [1 / 2]))]"
    if "bo = None \<or> bo = Some 0" for bo
    using that by (auto simp: main_def id_map_1x1_islands single_pixel_render)
  show ?thesis
    unfolding uv using single_pixel_t [of eigh] len m [of None] m [of "Some 0"] by simp
qed

text \<open>
  C1, at the input where the code departs from it: a 1x1 ID map holding only the
  background id. \<open>load_islands\<close> returns an empty list of islands instead of an error, and
  the pipeline goes on to produce a fully transparent 1x1 raster.
\<close>

theorem id_map_background_only_not_rejected:
  "load_islands empty_payload (Some (Gray [[0]])) None = Inr ([], 1, 1) \<and>
   main blake2b eigh empty_payload (Some (Gray [[0]])) None False = Inr [[(0, 0, 0, 0)]]"
  by (simp add: main_def id_map_1x1_islands render_island_gradients_def)

text \<open>
  C6, at the input where the code departs from it: a 1x1 RGBA image whose pixel is fully
  transparent, read with background id 7. The pixel gets the id 0, not 7, and becomes an
  island.
\<close>

theorem transparent_pixel_forms_island:
  "load_id_map (Multi [[[10, 20, 30, 0]]]) = Inr [[0]] \<and>
   load_islands empty_payload (Some (Multi [[[10, 20, 30, 0]]])) (Some 7) =
     Inr ([\<lparr>island_id = IntId 0, pixels = [(0, 0)], pixel_uvs = None, uv_points = None\<rparr>], 1, 1)"
  by (simp add: load_islands_def empty_payload_def load_id_map_def channel_count_def
      pack_pixel_def islands_from_id_map_def row_width_def cells_equal_def enumerate_eq_zip
      to_int32_def)

section \<open>Explicit mode\<close>

lemma infer_uvs_positive:
  "0 < w \<Longrightarrow> 0 < h \<Longrightarrow>
   infer_uvs_from_pixels pxs w h =
   map (\<lambda>(x, y). ((of_int x + 1 / 2) / of_int w, 1 - (of_int y + 1 / 2) / of_int h)) pxs"
  by (simp add: infer_uvs_from_pixels_def max_def)

text \<open>
  C10. An explicit entry whose \<open>uvs\<close> form a valid \<open>(N,2)\<close> array with a row count
  different from the number of pixels left after clipping and deduplication is treated
  exactly as the same entry without \<open>uvs\<close>: the mismatch raises nothing (with no
  \<open>uv_points\<close> to parse, the entry yields a result), the island carries no per-pixel UVs,
  and the compositor shades it with the UVs inferred from the pixel positions,
  \<open>u = (x + 0.5) / width\<close> and \<open>v = 1 - (y + 0.5) / height\<close>.
\<close>

theorem mismatched_uvs_ignored:
  assumes "entry_uvs e = Some us" and "parse_float_points us = Inr uvs"
    and "(case entry_pixels e of
       Some ps \<Rightarrow> parse_int_points ps
     | None \<Rightarrow>
         (case entry_mask e of
            Some m \<Rightarrow> Inr (mask_pixels_from_image m)
          | None \<Rightarrow> Inl ValueError)) = Inr raw"
    and "length uvs \<noteq> length (normalize_pixels raw w h)"
    and "0 < w" and "0 < h"
  shows "explicit_island w h idx e = explicit_island w h idx (e\<lparr>entry_uvs := None\<rparr>) \<and>
    (entry_uv_points e = None \<longrightarrow> (\<exists>r. explicit_island w h idx e = Inr r)) \<and>
    (\<forall>isl. explicit_island w h idx e = Inr (Some isl) \<longrightarrow>
       pixels isl = normalize_pixels raw w h \<and> pixel_uvs isl = None \<and>
       island_pixel_uvs w h isl =
         map (\<lambda>(x, y). ((of_int x + 1 / 2) / of_int w, 1 - (of_int y + 1 / 2) / of_int h))
           (pixels isl))"
proof -
  have eq: "explicit_island w h idx e = explicit_island w h idx (e\<lparr>entry_uvs := None\<rparr>)"
    using assms(1-4) by (auto simp: explicit_island_def Let_def split: option.splits sum.splits)
  have ok: "entry_uv_points e = None \<longrightarrow> (\<exists>r. explicit_island w h idx e = Inr r)"
    using assms(1-4) by (auto simp: explicit_island_def Let_def split: option.splits sum.splits)
  have isl: "\<forall>isl. explicit_island w h idx e = Inr (Some isl) \<longrightarrow>
       pixels isl = normalize_pixels raw w h \<and> pixel_uvs isl = None \<and>
       island_pixel_uvs w h isl =
         map (\<lambda>(x, y). ((of_int x + 1 / 2) / of_int w, 1 - (of_int y + 1 / 2) / of_int h))
           (pixels isl)"
    using assms
    by (auto simp: explicit_island_def Let_def island_pixel_uvs_def infer_uvs_positive
        split: if_splits option.splits sum.splits)
  from eq ok isl show ?thesis by blast
qed


lemma normalize_pixels_example: "normalize_pixels [(1, 0), (0, 0), (1, 0), (5, 5)] 2 1 = [(0, 0), (1, 0)]"
  by (simp add: normalize_pixels_def to_int32_def)

theorem mismatched_uvs_ignored_witness:
  "islands_from_explicit_payload
     (empty_payload\<lparr>p_width := Some 2, p_height := Some 1,
        p_islands := Some [Dict \<lparr>entry_id = None,
          entry_pixels = Some [[1, 0], [0, 0], [1, 0], [5, 5]], entry_mask = None,
          entry_uvs = Some [[0, 0], [1, 0], [1, 1], [0, 1]], entry_uv_points = None\<rparr>]\<rparr>) =
   Inr ([\<lparr>island_id = IntId 1, pixels = [(0, 0), (1, 0)], pixel_uvs = None, uv_points = None\<rparr>], 2, 1) \<and>
   island_pixel_uvs 2 1
     \<lparr>island_id = IntId 1, pixels = [(0, 0), (1, 0)], pixel_uvs = None, uv_points = None\<rparr> =
   [(1 / 4, 1 / 2), (3 / 4, 1 / 2)]"
proof -
  let ?e = "\<lparr>entry_id = None,
          entry_pixels = Some [[1, 0], [0, 0], [1, 0], [5, 5]], entry_mask = None,
          entry_uvs = Some [[0, 0], [1, 0], [1, 1], [0, 1]], entry_uv_points = None\<rparr>"
  let ?isl = "\<lparr>island_id = IntId 1, pixels = [(0, 0), (1, 0)], pixel_uvs = None, uv_points = None\<rparr>"
  have h1: "entry_uvs ?e = Some [[0, 0], [1, 0], [1, 1], [0, 1]]" by simp
  have h2: "parse_float_points [[0, 0], [1, 0], [1, 1], [0, 1]] = Inr [(0, 0), (1, 0), (1, 1), (0, 1)]"
    by (simp add: parse_float_points_def as_n_by_2_def)
  have h3: "(case entry_pixels ?e of
       Some ps \<Rightarrow> parse_int_points ps
     | None \<Rightarrow>
         (case entry_mask ?e of
            Some m \<Rightarrow> Inr (mask_pixels_from_image m)
          | None \<Rightarrow> Inl ValueError)) = Inr [(1, 0), (0, 0), (1, 0), (5, 5)]"
    by (simp add: parse_int_points_def as_n_by_2_def fits_int64_def)
  have h4: "length [(0 :: real, 0 :: real), (1, 0), (1, 1), (0, 1)] \<noteq>
      length (normalize_pixels [(1, 0), (0, 0), (1, 0), (5, 5)] 2 1)"
    by (simp add: normalize_pixels_example)
  note T = mismatched_uvs_ignored [OF h1 h2 h3 h4, of 0]
  have body: "explicit_island 2 1 0 (?e\<lparr>entry_uvs := None\<rparr>) = Inr (Some ?isl)"
    by (simp add: explicit_island_def parse_int_points_def as_n_by_2_def fits_int64_def normalize_pixels_example)
  from T have isl: "explicit_island 2 1 0 ?e = Inr (Some ?isl)"
    and uv: "island_pixel_uvs 2 1 ?isl =
         map (\<lambda>(x, y). ((of_int x + 1 / 2) / of_int 2, 1 - (of_int y + 1 / 2) / of_int 1))
           (pixels ?isl)"
    using body by simp_all
  have res: "islands_from_explicit_payload
     (empty_payload\<lparr>p_width := Some 2, p_height := Some 1, p_islands := Some [Dict ?e]\<rparr>) =
     Inr ([?isl], 2, 1)"
    unfolding islands_from_explicit_payload_def by (simp add: empty_payload_def isl)
  from uv have "island_pixel_uvs 2 1 ?isl = [(1 / 4, 1 / 2), (3 / 4, 1 / 2)]" by simp
  with res show ?thesis by simp
qed

section \<open>Axis and local parameter\<close>

lemma clamp01_array_range: "\<forall>t \<in> set (clamp01_array xs). 0 \<le> t \<and> t \<le> 1"
  by (auto simp: clamp01_array_def)

lemma length_clamp01_array: "length (clamp01_array xs) = length xs"
  by (simp add: clamp01_array_def)

lemma fallback_t_total:
  "puvs \<noteq> [] \<Longrightarrow> \<exists>ts. fallback_t_from_bbox eps puvs = Inr ts \<and> length ts = length puvs"
  by (simp add: fallback_t_from_bbox_def normalize_local_uv_def Let_def)

lemma length_project_onto: "length (project_onto c a puvs) = length puvs"
  by (simp add: project_onto_def)

text \<open>
  C4. For non-empty per-pixel UVs and any axis-source points (and any eigen-solver),
  \<open>compute_local_t\<close> returns one value per pixel, each in \<open>[0,1]\<close>. When an axis is
  found and the projections span at least \<open>eps > 0\<close> (the principal-axis path), a pixel
  whose projection is the minimum gets 0 and one whose projection is the maximum gets 1.
  The values are reals, so the equalities are exact where the float code is exact up to
  rounding.
\<close>

theorem compute_local_t_range:
  assumes "puvs \<noteq> []"
  shows "\<exists>ts. compute_local_t eigh eps puvs src = Inr ts \<and> length ts = length puvs \<and>
     (\<forall>t \<in> set ts. 0 \<le> t \<and> t \<le> 1) \<and>
     (\<forall>axis. 0 < eps \<and> compute_principal_axis eigh eps src = Some axis \<and>
        eps \<le> Max (set (project_onto (mean_uv src) axis puvs)) -
              Min (set (project_onto (mean_uv src) axis puvs)) \<longrightarrow>
        (\<forall>i < length puvs.
           (project_onto (mean_uv src) axis puvs ! i =
              Min (set (project_onto (mean_uv src) axis puvs)) \<longrightarrow> ts ! i = 0) \<and>
           (project_onto (mean_uv src) axis puvs ! i =
              Max (set (project_onto (mean_uv src) axis puvs)) \<longrightarrow> ts ! i = 1)))"
    (is "\<exists>ts. ?res ts \<and> ?len ts \<and> ?range ts \<and> ?ends ts")
proof -
  from fallback_t_total [OF assms] obtain fs where
    fs: "fallback_t_from_bbox eps puvs = Inr fs" "length fs = length puvs" by blast
  have fallback: "?len (clamp01_array fs) \<and> ?range (clamp01_array fs)"
    using clamp01_array_range [of fs] fs(2) by (simp add: length_clamp01_array)
  show ?thesis
  proof (cases "compute_principal_axis eigh eps src")
    case None
    then have "?res (clamp01_array fs)"
      by (simp add: compute_local_t_def fs)
    moreover from None have "?ends (clamp01_array fs)" by simp
    ultimately show ?thesis using fallback by blast
  next
    case (Some axis)
    define t_raw where "t_raw = project_onto (mean_uv src) axis puvs"
    define span where "span = Max (set t_raw) - Min (set t_raw)"
    have ne: "t_raw \<noteq> []" using assms by (simp add: t_raw_def project_onto_def)
    have len: "length t_raw = length puvs" by (simp add: t_raw_def project_onto_def)
    show ?thesis
    proof (cases "span < eps")
      case True
      then have "?res (clamp01_array fs)"
        using Some ne by (simp add: compute_local_t_def fs Let_def t_raw_def span_def)
      moreover from True Some have "?ends (clamp01_array fs)"
        by (auto simp: t_raw_def span_def)
      ultimately show ?thesis using fallback by blast
    next
      case False
      let ?ts = "clamp01_array (map (\<lambda>t. (t - Min (set t_raw)) / span) t_raw)"
      have res: "?res ?ts"
        using Some ne False by (simp add: compute_local_t_def Let_def t_raw_def span_def)
      have range: "?len ?ts \<and> ?range ?ts"
        using clamp01_array_range [of "map (\<lambda>t. (t - Min (set t_raw)) / span) t_raw"] len
        by (simp add: length_clamp01_array)
      have ends: "?ends ?ts"
      proof (intro allI impI)
        fix axis' i
        assume a: "0 < eps \<and> compute_principal_axis eigh eps src = Some axis' \<and>
          eps \<le> Max (set (project_onto (mean_uv src) axis' puvs)) -
                Min (set (project_onto (mean_uv src) axis' puvs))"
          and i: "i < length puvs"
        from a Some have ax: "axis' = axis" by simp
        from a False have pos: "0 < span" by simp
        have nth: "?ts ! i = max 0 (min 1 ((t_raw ! i - Min (set t_raw)) / span))"
          using i len by (simp add: clamp01_array_def)
        have "(t_raw ! i = Min (set t_raw) \<longrightarrow> ?ts ! i = 0) \<and>
          (t_raw ! i = Max (set t_raw) \<longrightarrow> ?ts ! i = 1)"
          unfolding nth using pos by (auto simp: span_def)
        then show "(project_onto (mean_uv src) axis' puvs ! i =
              Min (set (project_onto (mean_uv src) axis' puvs)) \<longrightarrow> ?ts ! i = 0) \<and>
           (project_onto (mean_uv src) axis' puvs ! i =
              Max (set (project_onto (mean_uv src) axis' puvs)) \<longrightarrow> ?ts ! i = 1)"
          unfolding ax t_raw_def [symmetric] .
      qed
      from res range ends show ?thesis by blast
    qed
  qed
qed


theorem compute_local_t_range_witness:
  "compute_principal_axis (\<lambda>c. Some ((1, 0), ((1, 0), (0, 1)))) EPS [(0, 0), (1, 0), (1 / 2, 0)] =
     Some (1, 0) \<and>
   project_onto (mean_uv [(0, 0), (1, 0), (1 / 2, 0)]) (1, 0) [(0, 0), (1, 0), (1 / 2, 0)] =
     [- (1 / 2), 1 / 2, 0] \<and>
   compute_local_t (\<lambda>c. Some ((1, 0), ((1, 0), (0, 1)))) EPS
     [(0, 0), (1, 0), (1 / 2, 0)] [(0, 0), (1, 0), (1 / 2, 0)] = Inr [0, 1, 1 / 2]"
proof -
  let ?eigh = "\<lambda>c :: mat2. Some ((1 :: real, 0 :: real), ((1 :: real, 0 :: real), (0 :: real, 1 :: real)))"
  let ?p = "[(0, 0), (1, 0), (1 / 2, 0)] :: uv list"
  have ax: "compute_principal_axis ?eigh EPS ?p = Some (1, 0)"
    by (simp add: compute_principal_axis_def mean_uv_def EPS_def)
  have pr: "project_onto (mean_uv ?p) (1, 0) ?p = [- (1 / 2), 1 / 2, 0]"
    by (simp add: project_onto_def mean_uv_def)
  have ne: "?p \<noteq> []" by simp
  from compute_local_t_range [OF ne, of ?eigh EPS ?p] obtain ts where
    ts: "compute_local_t ?eigh EPS ?p ?p = Inr ts" by blast
  have "compute_local_t ?eigh EPS ?p ?p = Inr [0, 1, 1 / 2]"
    unfolding compute_local_t_def ax
    by (simp add: pr) (simp add: EPS_def clamp01_array_def)
  with ts ax pr show ?thesis by simp
qed

section \<open>Mesh mode: rasterization\<close>

lemma painted_refl: "painted bg iid m m"
  by (simp add: painted_def)

lemma painted_trans: "painted bg iid a b \<Longrightarrow> painted bg iid b c \<Longrightarrow> painted bg iid a c"
  unfolding painted_def by (metis (no_types, lifting))

lemma paint_window_painted:
  "painted bg iid m (paint_window m min_x max_x min_y max_y tri_mask iid bg)"
  by (simp add: painted_def paint_window_def nth_enumerate_eq)

lemma rasterize_painted: "painted bg iid m (rasterize_triangle_into_map m tri iid bg)"
  by (simp add: rasterize_triangle_into_map_def Let_def painted_refl paint_window_painted
      split: prod.splits)

lemma foldl_rasterize_painted:
  "painted bg iid m (foldl (\<lambda>m t. rasterize_triangle_into_map m (f t) iid bg) m ts)"
proof (induction ts arbitrary: m)
  case Nil
  show ?case by (simp add: painted_refl)
next
  case (Cons t ts)
  show ?case
    using painted_trans [OF rasterize_painted Cons.IH] by simp
qed


lemma rect_nth: "rect w h m \<Longrightarrow> y < h \<Longrightarrow> length (m ! y) = w"
  by (simp add: rect_def list_all_length)

lemma painted_rect: "painted bg iid m m' \<Longrightarrow> rect w h m \<Longrightarrow> rect w h m'"
  by (simp add: painted_def rect_def list_all_length)

lemma to_int32_small: "0 \<le> x \<Longrightarrow> x < 2147483648 \<Longrightarrow> to_int32 x = x"
  by (simp add: to_int32_def)

lemma row_cells_set:
  "set (map (\<lambda>(x, c). (f x, g)) (filter (\<lambda>(x, c). c = v) (enumerate 0 row))) =
   {(f x, g) | x. x < length row \<and> row ! x = v}"
proof -
  have "set (filter (\<lambda>(x, c). c = v) (enumerate 0 row)) = {(x, v) | x. x < length row \<and> row ! x = v}"
    by (auto simp: in_set_enumerate_eq)
  then show ?thesis by (auto simp: image_iff)
qed

lemma cells_equal_member:
  "(px, py) \<in> set (cells_equal m v) \<longleftrightarrow>
   (\<exists>y < length m. \<exists>x < length (m ! y). m ! y ! x = v \<and>
      px = to_int32 (int x) \<and> py = to_int32 (int y))"
proof -
  have e: "set (enumerate 0 m) = (\<lambda>y. (y, m ! y)) ` {..<length m}"
    by (auto simp: in_set_enumerate_eq)
  have "set (cells_equal m v) =
    (\<Union>(y, row) \<in> set (enumerate 0 m).
       {(to_int32 (int x), to_int32 (int y)) | x. x < length row \<and> row ! x = v})"
    unfolding cells_equal_def set_concat set_map image_image
    by (intro SUP_cong refl) (auto simp: in_set_enumerate_eq image_iff)
  also have "\<dots> = (\<Union>y \<in> {..<length m}.
       {(to_int32 (int x), to_int32 (int y)) | x. x < length (m ! y) \<and> m ! y ! x = v})"
    unfolding e by simp
  finally show ?thesis by blast
qed

lemma distinct_row_cells:
  "distinct (map (\<lambda>(x, c). (f x, g)) (filter P (enumerate 0 row)))" if "inj_on f {..<length row}"
  using that by (auto simp: distinct_map inj_on_def in_set_enumerate_eq)

lemma distinct_cells_from:
  assumes "list_all (\<lambda>r. length r \<le> 2147483648) m" and "n + length m \<le> 2147483648"
  shows "distinct (concat (map (\<lambda>(y, row).
      map (\<lambda>(x, c). (to_int32 (int x), to_int32 (int y)))
        (filter (\<lambda>(x, c). c = v) (enumerate 0 row))) (enumerate n m)))"
  using assms
proof (induction m arbitrary: n)
  case Nil
  show ?case by simp
next
  case (Cons r m)
  have inj: "inj_on (\<lambda>x. to_int32 (int x)) {..<length r}"
    using Cons.prems(1) by (auto simp: inj_on_def to_int32_small)
  have row: "distinct (map (\<lambda>(x, c). (to_int32 (int x), to_int32 (int n)))
        (filter (\<lambda>(x, c). c = v) (enumerate 0 r)))"
    by (rule distinct_row_cells [OF inj])
  have rest: "distinct (concat (map (\<lambda>(y, row).
      map (\<lambda>(x, c). (to_int32 (int x), to_int32 (int y)))
        (filter (\<lambda>(x, c). c = v) (enumerate 0 row))) (enumerate (Suc n) m)))"
    using Cons.prems by (intro Cons.IH) simp_all
  have disj: "snd p \<noteq> to_int32 (int n)"
    if "p \<in> set (concat (map (\<lambda>(y, row).
      map (\<lambda>(x, c). (to_int32 (int x), to_int32 (int y)))
        (filter (\<lambda>(x, c). c = v) (enumerate 0 row))) (enumerate (Suc n) m)))" for p
  proof -
    from that obtain y where y: "Suc n \<le> y" "y < length m + Suc n" "snd p = to_int32 (int y)"
      by (auto simp: in_set_enumerate_eq)
    with Cons.prems(2) have "to_int32 (int y) = int y" "to_int32 (int n) = int n"
      by (simp_all add: to_int32_small)
    with y show ?thesis by simp
  qed
  show ?case
    using row rest disj by (fastforce simp: enumerate_simps)
qed

lemma distinct_cells_equal:
  "rect w h m \<Longrightarrow> w \<le> 2147483648 \<Longrightarrow> h \<le> 2147483648 \<Longrightarrow> distinct (cells_equal m v)"
  unfolding cells_equal_def
  by (rule distinct_cells_from) (auto simp: rect_def list_all_iff)

lemma cells_equal_rect:
  assumes "rect w h m" "w \<le> 2147483648" "h \<le> 2147483648" "(px, py) \<in> set (cells_equal m v)"
  shows "0 \<le> px \<and> px < int w \<and> 0 \<le> py \<and> py < int h \<and> m ! nat py ! nat px = v"
proof -
  from assms(4) obtain y x where yx: "y < length m" "x < length (m ! y)" "m ! y ! x = v"
    "px = to_int32 (int x)" "py = to_int32 (int y)"
    by (auto simp: cells_equal_member)
  from assms(1) yx have "y < h" "x < w" by (simp_all add: rect_def list_all_length)
  with assms(2,3) yx show ?thesis by (simp add: to_int32_small)
qed

section \<open>Mesh mode: the loop over the components\<close>

lemma skip_background_eq:
  "skip_background n b = (if n = b then n + 1 else n)"
proof -
  have "skip_background (b + 1) b = b + 1" by (subst skip_background.simps) simp
  then show ?thesis by (subst skip_background.simps) simp
qed

lemma owners_disjoint:
  assumes "distinct (map island_id islands)"
    and "list_all (\<lambda>island. \<exists>v. owns m island v) islands"
  shows "pairwise_disjoint islands"
  unfolding pairwise_disjoint_def
proof (intro allI impI)
  fix i j
  assume i: "i < length islands" and j: "j < length islands" and ij: "i \<noteq> j"
  from assms(2) i have "\<exists>v. owns m (islands ! i) v" by (simp add: list_all_length)
  then obtain vi where vi: "owns m (islands ! i) vi" ..
  from assms(2) j have "\<exists>v. owns m (islands ! j) v" by (simp add: list_all_length)
  then obtain vj where vj: "owns m (islands ! j) vj" ..
  from assms(1) i j ij have ne: "island_id (islands ! i) \<noteq> island_id (islands ! j)"
    by (simp add: distinct_conv_nth)
  show "set (pixels (islands ! i)) \<inter> set (pixels (islands ! j)) = {}"
  proof (rule ccontr)
    assume "set (pixels (islands ! i)) \<inter> set (pixels (islands ! j)) \<noteq> {}"
    then obtain p where p: "p \<in> set (pixels (islands ! i))" "p \<in> set (pixels (islands ! j))"
      by blast
    from vi p(1) have "m ! nat (snd p) ! nat (fst p) = vi"
      by (auto simp: owns_def list_all_iff)
    moreover from vj p(2) have "m ! nat (snd p) ! nat (fst p) = vj"
      by (auto simp: owns_def list_all_iff)
    ultimately have "vi = vj" by simp
    with vi vj ne show False by (simp add: owns_def)
  qed
qed

lemma owns_painted:
  assumes "owns m island v" "v \<noteq> bg" "painted bg iid m m'"
  shows "owns m' island v"
proof -
  have "0 \<le> x \<and> 0 \<le> y \<and> nat y < length m' \<and> nat x < length (m' ! nat y) \<and>
      m' ! nat y ! nat x = v"
    if "(x, y) \<in> set (pixels island)" for x y
  proof -
    from assms(1) that have o: "0 \<le> x" "0 \<le> y" "nat y < length m" "nat x < length (m ! nat y)"
      "m ! nat y ! nat x = v"
      by (auto simp: owns_def list_all_iff)
    from assms(3) o(3) have l: "length m' = length m" "length (m' ! nat y) = length (m ! nat y)"
      and c: "\<forall>x < length (m ! nat y). m' ! nat y ! x = m ! nat y ! x \<or>
        (m ! nat y ! x = bg \<and> m' ! nat y ! x = iid)"
      by (simp_all add: painted_def)
    from c o(4) have "m' ! nat y ! nat x = m ! nat y ! nat x \<or>
        (m ! nat y ! nat x = bg \<and> m' ! nat y ! nat x = iid)" by blast
    with o assms(2) have "m' ! nat y ! nat x = v" by simp
    with o l show ?thesis by simp
  qed
  with assms(1) show ?thesis by (auto simp: owns_def list_all_iff)
qed

lemma owns_cells_equal:
  assumes "rect w h m" "w \<le> 2147483648" "h \<le> 2147483648"
  shows "owns m \<lparr>island_id = IntId v, pixels = cells_equal m v, pixel_uvs = a, uv_points = b\<rparr> v \<and>
    pixels_ok (int w) (int h) \<lparr>island_id = IntId v, pixels = cells_equal m v, pixel_uvs = a, uv_points = b\<rparr>"
proof -
  have c: "0 \<le> px \<and> px < int w \<and> 0 \<le> py \<and> py < int h \<and> m ! nat py ! nat px = v"
    if "(px, py) \<in> set (cells_equal m v)" for px py
    using cells_equal_rect [OF assms that] .
  have len: "nat py < length m \<and> nat px < length (m ! nat py)"
    if "(px, py) \<in> set (cells_equal m v)" for px py
    using c [OF that] assms(1) by (auto simp: rect_def list_all_length)
  show ?thesis
    using c len distinct_cells_equal [OF assms, of v]
    by (auto simp: owns_def pixels_ok_def list_all_iff)
qed


text \<open>One pass of the loop body, spelled out.\<close>

lemma mesh_component_unfold:
  "mesh_component width height bg (m, islands, n) tris =
    (let iid = skip_background n bg;
         m' = foldl (\<lambda>m tri_uv. rasterize_triangle_into_map m (uv_to_px tri_uv width height) iid bg) m tris
     in (m',
         if cells_equal m' iid = [] then islands
         else islands @ [\<lparr>island_id = IntId iid, pixels = cells_equal m' iid, pixel_uvs = None,
                           uv_points = Some (concat (map (\<lambda>(a, b, c). [a, b, c]) tris))\<rparr>],
         iid + 1))"
  by (simp add: mesh_component_def Let_def)

lemma mesh_component_next:
  "snd (snd (mesh_component width height bg st tris)) = skip_background (snd (snd st)) bg + 1"
  by (cases st) (simp add: mesh_component_unfold Let_def)

lemma mesh_component_painted:
  "painted bg (skip_background (snd (snd st)) bg) (fst st)
     (fst (mesh_component width height bg st tris))"
  by (cases st) (simp add: mesh_component_unfold Let_def foldl_rasterize_painted)

lemma mesh_component_inv:
  assumes "mesh_inv w h bg st" "w \<le> 2147483648" "h \<le> 2147483648"
  shows "mesh_inv w h bg (mesh_component width height bg st tris)"
proof -
  obtain m islands n where st: "st = (m, islands, n)" by (cases st)
  define iid where "iid = skip_background n bg"
  define m' where "m' = fst (mesh_component width height bg st tris)"
  have p: "painted bg iid m m'"
    using mesh_component_painted [of bg st width height tris] by (simp add: st iid_def m'_def)
  from assms(1) have r: "rect w h m" and n: "1 \<le> n" and d: "distinct (map island_id islands)"
    and old: "list_all (\<lambda>isl. \<exists>v. 1 \<le> v \<and> v < n \<and> v \<noteq> bg \<and> owns m isl v \<and>
                        pixels_ok (int w) (int h) isl) islands"
    by (simp_all add: mesh_inv_def st)
  have r': "rect w h m'" using painted_rect [OF p r] .
  have iid: "n \<le> iid" "iid \<noteq> bg" by (simp_all add: iid_def skip_background_eq)
  have old': "list_all (\<lambda>isl. \<exists>v. 1 \<le> v \<and> v < iid + 1 \<and> v \<noteq> bg \<and> owns m' isl v \<and>
                        pixels_ok (int w) (int h) isl) islands"
    unfolding list_all_iff
  proof
    fix island assume "island \<in> set islands"
    with old obtain v where v: "1 \<le> v" "v < n" "v \<noteq> bg" "owns m island v"
      "pixels_ok (int w) (int h) island"
      by (auto simp: list_all_iff)
    from owns_painted [OF v(4) v(3) p] v iid(1)
    show "\<exists>v. 1 \<le> v \<and> v < iid + 1 \<and> v \<noteq> bg \<and> owns m' island v \<and> pixels_ok (int w) (int h) island"
      by (intro exI [of _ v]) simp
  qed
  let ?new = "\<lparr>island_id = IntId iid, pixels = cells_equal m' iid, pixel_uvs = None,
                uv_points = Some (concat (map (\<lambda>(a, b, c). [a, b, c]) tris))\<rparr>"
  have new: "\<exists>v. 1 \<le> v \<and> v < iid + 1 \<and> v \<noteq> bg \<and> owns m' ?new v \<and> pixels_ok (int w) (int h) ?new"
    using owns_cells_equal [OF r' assms(2,3), of iid] n iid by (intro exI [of _ iid]) simp
  have fresh: "IntId iid \<notin> set (map island_id islands)"
  proof
    assume "IntId iid \<in> set (map island_id islands)"
    then obtain island where i: "island \<in> set islands" "island_id island = IntId iid" by auto
    with old obtain v where "v < n" "owns m island v" by (auto simp: list_all_iff)
    with i(2) iid(1) show False by (simp add: owns_def)
  qed
  have res: "mesh_component width height bg st tris =
    (m', if cells_equal m' iid = [] then islands else islands @ [?new], iid + 1)"
    by (simp add: st mesh_component_unfold Let_def m'_def iid_def)
  show ?thesis
    unfolding res using r' n iid(1) d old' new fresh
    by (simp add: mesh_inv_def)
qed

lemma foldl_mesh_component_inv:
  "mesh_inv w h bg st \<Longrightarrow> w \<le> 2147483648 \<Longrightarrow> h \<le> 2147483648 \<Longrightarrow>
   mesh_inv w h bg (foldl (mesh_component width height bg) st comps)"
  by (induction comps arbitrary: st) (simp_all add: mesh_component_inv)

lemma next_island_id_after:
  "k \<le> length comps \<Longrightarrow>
   snd (snd (foldl (mesh_component width height bg) (m0, islands0, 1) (take k comps))) =
     (if 1 \<le> bg \<and> bg \<le> int k then int k + 2 else int k + 1)"
proof (induction k)
  case 0
  show ?case by simp
next
  case (Suc k)
  then have k: "k < length comps" by simp
  have "take (Suc k) comps = take k comps @ [comps ! k]"
    using k by (rule take_Suc_conv_app_nth)
  then show ?case
    using Suc.IH k by (auto simp: mesh_component_next skip_background_eq)
qed

text \<open>
  C7. In mesh mode the component at position \<open>k\<close> of the discovery order (counting from
  0) is assigned the id \<open>k + 1\<close>, or \<open>k + 2\<close> when the background id lies in
  \<open>[1, k + 1]\<close>: the ids are 1, 2, 3, ... with the background id left out. Each pass
  of the loop consumes the id it assigned, and the island it appends, if any, carries
  that id. With background id 1 the first id is 2.
\<close>

theorem mesh_synthetic_ids:
  "(\<forall>k < length comps.
      skip_background
        (snd (snd (foldl (mesh_component width height bg) (m0, [], 1) (take k comps)))) bg =
      (if 1 \<le> bg \<and> bg \<le> int k + 1 then int k + 2 else int k + 1)) \<and>
   (\<forall>m islands n tris. \<exists>m'.
      mesh_component width height bg (m, islands, n) tris =
        (m', islands, skip_background n bg + 1) \<or>
      (\<exists>pxs pts. mesh_component width height bg (m, islands, n) tris =
        (m', islands @ [\<lparr>island_id = IntId (skip_background n bg), pixels = pxs,
                          pixel_uvs = None, uv_points = pts\<rparr>],
         skip_background n bg + 1))) \<and>
   skip_background 1 1 = 2"
proof -
  have ids: "\<forall>k < length comps.
      skip_background
        (snd (snd (foldl (mesh_component width height bg) (m0, [], 1) (take k comps)))) bg =
      (if 1 \<le> bg \<and> bg \<le> int k + 1 then int k + 2 else int k + 1)"
    by (auto simp: next_island_id_after skip_background_eq)
  have step: "\<forall>m islands n tris. \<exists>m'.
      mesh_component width height bg (m, islands, n) tris =
        (m', islands, skip_background n bg + 1) \<or>
      (\<exists>pxs pts. mesh_component width height bg (m, islands, n) tris =
        (m', islands @ [\<lparr>island_id = IntId (skip_background n bg), pixels = pxs,
                          pixel_uvs = None, uv_points = pts\<rparr>],
         skip_background n bg + 1))"
    by (simp add: mesh_component_unfold Let_def)
  have "skip_background 1 1 = 2" by (simp add: skip_background_eq)
  with ids step show ?thesis by blast
qed

lemma components_single_face: "connected_components_from_faces [(0, 1, 2)] = [[0]]"
  by (simp add: connected_components_from_faces_def connected_components_def triangles_by_key_def
     visit_corners_def visit_def)

lemma rasterize_example:
  "rasterize_triangle_into_map [[1, 1], [1, 1]] (uv_to_px ((0, 0), (1, 0), (0, 1)) 2 2) 2 1 =
   [[2, 1], [2, 2]]"
  by (simp add: rasterize_triangle_into_map_def uv_to_px_def uv_to_px1_def row_width_def Let_def
      inside_triangle_def paint_window_def upto_rec1)

theorem mesh_synthetic_ids_witness:
  "islands_from_mesh_payload
     (empty_payload\<lparr>p_width := Some 2, p_height := Some 2, p_background_id := Some 1,
        p_uv_vertices := Some [[0, 0], [1, 0], [0, 1]], p_faces := Some [[0, 1, 2]]\<rparr>) =
   Inr ([\<lparr>island_id = IntId 2, pixels = [(0, 0), (0, 1), (1, 1)], pixel_uvs = None,
          uv_points = Some [(0, 0), (1, 0), (0, 1)]\<rparr>], 2, 2)"
proof -
  let ?pl = "empty_payload\<lparr>p_width := Some 2, p_height := Some 2, p_background_id := Some 1,
        p_uv_vertices := Some [[0, 0], [1, 0], [0, 1]], p_faces := Some [[0, 1, 2]]\<rparr>"
  have mt: "mesh_triangles ?pl = Inr ([((0, 0), (1, 0), (0, 1))], [[0]])"
    by (simp add: mesh_triangles_def empty_payload_def parse_float_points_def as_n_by_2_def
      fits_int64_def as_n_by_3_def components_single_face)
  from mesh_synthetic_ids [of "[[((0, 0), (1, 0), (0, 1))]]" 2 2 1 "[[1, 1], [1, 1]]"]
  have first: "skip_background 1 1 = 2" by simp
  have step: "mesh_component 2 2 1 ([[1, 1], [1, 1]], [], 1) [((0, 0), (1, 0), (0, 1))] =
    ([[2, 1], [2, 2]],
     [\<lparr>island_id = IntId 2, pixels = [(0, 0), (0, 1), (1, 1)], pixel_uvs = None,
          uv_points = Some [(0, 0), (1, 0), (0, 1)]\<rparr>], 3)"
    unfolding mesh_component_unfold first
    by (simp add: rasterize_example cells_equal_def enumerate_eq_zip to_int32_def)
  show ?thesis
    unfolding islands_from_mesh_payload_def mt
    by (simp add: empty_payload_def fits_int64_def numeral_2_eq_2 step)
qed

lemma painted_kept:
  "painted bg iid m m' \<Longrightarrow> y < length m \<Longrightarrow> x < length (m ! y) \<Longrightarrow> m ! y ! x \<noteq> bg \<Longrightarrow>
   y < length m' \<and> x < length (m' ! y) \<and> m' ! y ! x = m ! y ! x"
  unfolding painted_def by (metis (no_types, lifting))

lemma foldl_mesh_component_kept:
  "y < length m \<Longrightarrow> x < length (m ! y) \<Longrightarrow> m ! y ! x \<noteq> bg \<Longrightarrow>
   fst (foldl (mesh_component width height bg) (m, islands, n) comps) ! y ! x = m ! y ! x"
proof (induction comps arbitrary: m islands n)
  case Nil
  show ?case by simp
next
  case (Cons c comps)
  obtain m' islands' n' where st: "mesh_component width height bg (m, islands, n) c = (m', islands', n')"
    by (cases "mesh_component width height bg (m, islands, n) c")
  have "painted bg (skip_background n bg) m m'"
    using mesh_component_painted [of bg "(m, islands, n)" width height c] by (simp add: st)
  from painted_kept [OF this Cons.prems]
  have k: "y < length m'" "x < length (m' ! y)" "m' ! y ! x = m ! y ! x" by simp_all
  with Cons.prems(3) have "m' ! y ! x \<noteq> bg" by simp
  from Cons.IH [OF k(1,2) this, of islands' n'] k(3) show ?case by (simp add: st)
qed

lemma mesh_ids_fresh:
  assumes "distinct (map island_id islands)"
    and "list_all (\<lambda>isl. \<exists>v. island_id isl = IntId v \<and> v < n) islands"
  shows "distinct (map island_id (fst (snd (foldl (mesh_component width height bg) (m, islands, n) comps))))"
  using assms
proof (induction comps arbitrary: m islands n)
  case Nil
  then show ?case by simp
next
  case (Cons c comps)
  define iid where "iid = skip_background n bg"
  obtain m' islands' where st:
    "mesh_component width height bg (m, islands, n) c = (m', islands', iid + 1)"
    by (simp add: mesh_component_unfold Let_def iid_def)
  have le: "n \<le> iid" by (simp add: iid_def skip_background_eq)
  have cases: "islands' = islands \<or>
    (\<exists>new. islands' = islands @ [new] \<and> island_id new = IntId iid)"
    using st by (auto simp: mesh_component_unfold Let_def iid_def split: if_splits)
  have fresh: "IntId iid \<notin> set (map island_id islands)"
    using Cons.prems(2) le by (auto simp: list_all_iff)
  have d: "distinct (map island_id islands')"
    using cases Cons.prems(1) fresh by auto
  have b: "list_all (\<lambda>isl. \<exists>v. island_id isl = IntId v \<and> v < iid + 1) islands'"
    using cases Cons.prems(2) le by (auto simp: list_all_iff) force
  from Cons.IH [OF d b, of m'] show ?case by (simp add: st)
qed

lemma mesh_payload_result:
  assumes "islands_from_mesh_payload pl = Inr (islands, w, h)"
  shows "0 < w \<and> 0 < h \<and> islands \<noteq> [] \<and>
    (\<exists>comps bg. islands = fst (snd (foldl (mesh_component w h bg)
       (replicate (nat h) (replicate (nat w) bg), [], 1) comps)))"
  using assms unfolding islands_from_mesh_payload_def Let_def
  by (auto split: if_splits sum.splits prod.splits)

lemma mesh_inv_initial: "mesh_inv w h bg (replicate h (replicate w bg), [], 1)"
  by (simp add: mesh_inv_def rect_def list_all_iff)

lemma mesh_inv_disjoint:
  assumes "mesh_inv w h bg (m, islands, n)"
  shows "pairwise_disjoint islands \<and> list_all (pixels_ok (int w) (int h)) islands"
proof -
  from assms have d: "distinct (map island_id islands)"
    and o: "list_all (\<lambda>isl. \<exists>v. owns m isl v) islands"
    and p: "list_all (pixels_ok (int w) (int h)) islands"
    by (auto simp: mesh_inv_def list_all_iff)
  from owners_disjoint [OF d o] p show ?thesis by simp
qed

lemma mesh_payload_islands:
  assumes "islands_from_mesh_payload pl = Inr (islands, w, h)"
  shows "distinct (map island_id islands)"
    and "w \<le> 2147483648 \<Longrightarrow> h \<le> 2147483648 \<Longrightarrow>
      pairwise_disjoint islands \<and> list_all (pixels_ok w h) islands"
proof -
  from mesh_payload_result [OF assms] obtain comps bg where
    pos: "0 < w" "0 < h" and
    isl: "islands = fst (snd (foldl (mesh_component w h bg)
       (replicate (nat h) (replicate (nat w) bg), [], 1) comps))"
    by blast
  show "distinct (map island_id islands)"
    unfolding isl by (rule mesh_ids_fresh) simp_all
  assume b: "w \<le> 2147483648" "h \<le> 2147483648"
  obtain m n where f: "foldl (mesh_component w h bg)
       (replicate (nat h) (replicate (nat w) bg), [], 1) comps = (m, islands, n)"
    using isl by (cases "foldl (mesh_component w h bg)
       (replicate (nat h) (replicate (nat w) bg), [], 1) comps") simp
  have "mesh_inv (nat w) (nat h) bg (foldl (mesh_component w h bg)
       (replicate (nat h) (replicate (nat w) bg), [], 1) comps)"
    using b by (intro foldl_mesh_component_inv mesh_inv_initial) simp_all
  from mesh_inv_disjoint [OF this [unfolded f]] pos
  show "pairwise_disjoint islands \<and> list_all (pixels_ok w h) islands" by simp
qed


text \<open>
  C8. \<open>rasterize_triangle_into_map\<close> keeps the shape of the raster and changes a cell
  only from the background id to the island id. Hence a cell that holds a
  non-background id keeps it through every later triangle and component of the loop.
  The islands returned in mesh mode have distinct ids and, on a canvas whose sides fit
  the 32-bit pixel coordinates, pairwise disjoint pixel sets.
\<close>

theorem first_writer_wins:
  "length (rasterize_triangle_into_map m tri_px iid bg) = length m \<and>
   (\<forall>y < length m. \<forall>x < length (m ! y).
      rasterize_triangle_into_map m tri_px iid bg ! y ! x \<noteq> m ! y ! x \<longrightarrow>
      m ! y ! x = bg \<and> rasterize_triangle_into_map m tri_px iid bg ! y ! x = iid) \<and>
   (\<forall>y < length m. \<forall>x < length (m ! y). m ! y ! x \<noteq> bg \<longrightarrow>
      fst (foldl (mesh_component width height bg) (m, islands, n) comps) ! y ! x = m ! y ! x) \<and>
   (\<forall>isls w h. islands_from_mesh_payload pl = Inr (isls, w, h) \<longrightarrow>
      distinct (map island_id isls) \<and>
      (w \<le> 2147483648 \<and> h \<le> 2147483648 \<longrightarrow> pairwise_disjoint isls))"
proof -
  have p: "painted bg iid m (rasterize_triangle_into_map m tri_px iid bg)"
    by (rule rasterize_painted)
  then have a: "length (rasterize_triangle_into_map m tri_px iid bg) = length m"
    by (simp add: painted_def)
  from p have b: "\<forall>y < length m. \<forall>x < length (m ! y).
      rasterize_triangle_into_map m tri_px iid bg ! y ! x \<noteq> m ! y ! x \<longrightarrow>
      m ! y ! x = bg \<and> rasterize_triangle_into_map m tri_px iid bg ! y ! x = iid"
    unfolding painted_def by blast
  have c: "\<forall>y < length m. \<forall>x < length (m ! y). m ! y ! x \<noteq> bg \<longrightarrow>
      fst (foldl (mesh_component width height bg) (m, islands, n) comps) ! y ! x = m ! y ! x"
    by (simp add: foldl_mesh_component_kept)
  have d: "\<forall>isls w h. islands_from_mesh_payload pl = Inr (isls, w, h) \<longrightarrow>
      distinct (map island_id isls) \<and>
      (w \<le> 2147483648 \<and> h \<le> 2147483648 \<longrightarrow> pairwise_disjoint isls)"
    using mesh_payload_islands by blast
  from a b c d show ?thesis by blast
qed

lemma components_two_faces: "connected_components_from_faces [(0, 1, 2), (3, 4, 5)] = [[0], [1]]"
  by (simp add: connected_components_from_faces_def connected_components_def triangles_by_key_def
     visit_corners_def visit_def upt_rec)

lemma rasterize_example_first:
  "rasterize_triangle_into_map [[0, 0], [0, 0]] (uv_to_px ((0, 0), (1, 0), (0, 1)) 2 2) 1 0 =
   [[1, 0], [1, 1]]"
  by (simp add: rasterize_triangle_into_map_def uv_to_px_def uv_to_px1_def row_width_def Let_def
      inside_triangle_def paint_window_def upto_rec1)

lemma rasterize_example_second:
  "rasterize_triangle_into_map [[1, 0], [1, 1]] (uv_to_px ((0, 0), (1, 0), (1, 1)) 2 2) 2 0 =
   [[1, 2], [1, 1]]"
  by (simp add: rasterize_triangle_into_map_def uv_to_px_def uv_to_px1_def row_width_def Let_def
      inside_triangle_def paint_window_def upto_rec1)

theorem first_writer_wins_witness:
  "islands_from_mesh_payload
     (empty_payload\<lparr>p_width := Some 2, p_height := Some 2,
        p_uv_vertices := Some [[0, 0], [1, 0], [0, 1], [0, 0], [1, 0], [1, 1]],
        p_faces := Some [[0, 1, 2], [3, 4, 5]]\<rparr>) =
   Inr ([\<lparr>island_id = IntId 1, pixels = [(0, 0), (0, 1), (1, 1)], pixel_uvs = None,
          uv_points = Some [(0, 0), (1, 0), (0, 1)]\<rparr>,
         \<lparr>island_id = IntId 2, pixels = [(1, 0)], pixel_uvs = None,
          uv_points = Some [(0, 0), (1, 0), (1, 1)]\<rparr>], 2, 2) \<and>
   pairwise_disjoint
     [\<lparr>island_id = IntId 1, pixels = [(0, 0), (0, 1), (1, 1)], pixel_uvs = None,
          uv_points = Some [(0, 0), (1, 0), (0, 1)]\<rparr>,
      \<lparr>island_id = IntId 2, pixels = [(1, 0)], pixel_uvs = None,
          uv_points = Some [(0, 0), (1, 0), (1, 1)]\<rparr>]"
proof -
  let ?pl = "empty_payload\<lparr>p_width := Some 2, p_height := Some 2,
        p_uv_vertices := Some [[0, 0], [1, 0], [0, 1], [0, 0], [1, 0], [1, 1]],
        p_faces := Some [[0, 1, 2], [3, 4, 5]]\<rparr>"
  let ?a = "\<lparr>island_id = IntId 1, pixels = [(0, 0), (0, 1), (1, 1)], pixel_uvs = None,
          uv_points = Some [(0, 0), (1, 0), (0, 1)]\<rparr>"
  let ?b = "\<lparr>island_id = IntId 2, pixels = [(1, 0)], pixel_uvs = None,
          uv_points = Some [(0, 0), (1, 0), (1, 1)]\<rparr>"
  have mt: "mesh_triangles ?pl =
    Inr ([((0, 0), (1, 0), (0, 1)), ((0, 0), (1, 0), (1, 1))], [[0], [1]])"
    by (simp add: mesh_triangles_def empty_payload_def parse_float_points_def as_n_by_2_def
      fits_int64_def as_n_by_3_def components_two_faces)
  have s1: "mesh_component 2 2 0 ([[0, 0], [0, 0]], [], 1) [((0, 0), (1, 0), (0, 1))] =
    ([[1, 0], [1, 1]], [?a], 2)"
    unfolding mesh_component_unfold
    by (simp add: skip_background_eq rasterize_example_first cells_equal_def enumerate_eq_zip
        to_int32_def)
  have s2: "mesh_component 2 2 0 ([[1, 0], [1, 1]], [?a], 2) [((0, 0), (1, 0), (1, 1))] =
    ([[1, 2], [1, 1]], [?a, ?b], 3)"
    unfolding mesh_component_unfold
    by (simp add: skip_background_eq rasterize_example_second cells_equal_def enumerate_eq_zip
        to_int32_def)
  have res: "islands_from_mesh_payload ?pl = Inr ([?a, ?b], 2, 2)"
    unfolding islands_from_mesh_payload_def mt
    by (simp add: empty_payload_def fits_int64_def numeral_2_eq_2 s1 s2)
  from first_writer_wins [of _ _ _ _ _ _ _ _ _ ?pl] res
  have "pairwise_disjoint [?a, ?b]" by simp
  with res show ?thesis by simp
qed

section \<open>The resolver's islands\<close>

lemma id_map_island_ids:
  "map island_id (concat (map (\<lambda>iid.
      (let pxs = cells_equal ids iid
       in if pxs = [] then []
          else [\<lparr>island_id = IntId iid, pixels = pxs, pixel_uvs = None, uv_points = None\<rparr>])) vs)) =
   map IntId (filter (\<lambda>v. cells_equal ids v \<noteq> []) vs)"
  by (induction vs) (simp_all add: Let_def)

lemma id_map_islands_owned:
  assumes "rect w h ids" "w \<le> 2147483648" "h \<le> 2147483648"
  shows "list_all (\<lambda>isl. (\<exists>v. owns ids isl v) \<and> pixels_ok (int w) (int h) isl)
    (concat (map (\<lambda>iid.
      (let pxs = cells_equal ids iid
       in if pxs = [] then []
          else [\<lparr>island_id = IntId iid, pixels = pxs, pixel_uvs = None, uv_points = None\<rparr>])) vs))"
proof (induction vs)
  case Nil
  show ?case by simp
next
  case (Cons v vs)
  from owns_cells_equal [OF assms, of v None None] Cons.IH show ?case
    by (auto simp: Let_def)
qed

lemma islands_from_id_map_ok:
  assumes "islands_from_id_map ids bg = Inr (islands, w, h)"
    and "rect (row_width ids) (length ids) ids"
    and "w \<le> 2147483648" "h \<le> 2147483648"
  shows "pairwise_disjoint islands \<and> list_all (pixels_ok w h) islands"
proof -
  define vs where "vs = sort (filter (\<lambda>v. v \<noteq> bg) (sort (remdups (concat ids))))"
  from assms(1) have w: "w = int (row_width ids)" and h: "h = int (length ids)"
    and isl: "islands = concat (map (\<lambda>iid.
      (let pxs = cells_equal ids iid
       in if pxs = [] then []
          else [\<lparr>island_id = IntId iid, pixels = pxs, pixel_uvs = None, uv_points = None\<rparr>])) vs)"
    by (simp_all add: islands_from_id_map_def Let_def vs_def)
  have dv: "distinct vs" by (simp add: vs_def)
  have d: "distinct (map island_id islands)"
    unfolding isl id_map_island_ids using dv by (simp add: distinct_map inj_on_def)
  from assms(3,4) have b: "row_width ids \<le> 2147483648" "length ids \<le> 2147483648"
    by (simp_all add: w h)
  from id_map_islands_owned [OF assms(2) b, of vs]
  have o: "list_all (\<lambda>isl. (\<exists>v. owns ids isl v) \<and> pixels_ok w h isl) islands"
    by (simp add: isl w h)
  then have o1: "list_all (\<lambda>isl. \<exists>v. owns ids isl v) islands"
    and o2: "list_all (pixels_ok w h) islands"
    by (simp_all add: list_all_iff)
  from owners_disjoint [OF d o1] o2 show ?thesis by simp
qed

lemma load_id_map_rect:
  assumes "load_id_map img = Inr ids" "rect_image img"
  shows "rect (row_width ids) (length ids) ids"
proof (cases img)
  case (Gray arr)
  with assms show ?thesis by (simp add: load_id_map_def rect_image_def)
next
  case (Multi arr)
  with assms have ids: "ids = map (map (pack_pixel (channel_count arr))) arr"
    and r: "rect (row_width arr) (length arr) arr"
    by (simp_all add: load_id_map_def rect_image_def split: if_splits)
  have "row_width ids = row_width arr"
    unfolding ids by (cases arr) (simp_all add: row_width_def)
  with r show ?thesis by (simp add: ids rect_def list_all_iff)
qed

lemma normalize_pixels_ok:
  assumes "w \<le> 2147483648" "h \<le> 2147483648"
  shows "distinct (normalize_pixels raw w h) \<and>
    list_all (\<lambda>(x, y). 0 \<le> x \<and> x < w \<and> 0 \<le> y \<and> y < h) (normalize_pixels raw w h)"
proof -
  have "0 \<le> to_int32 x \<and> to_int32 x < w \<and> 0 \<le> to_int32 y \<and> to_int32 y < h"
    if "0 \<le> x \<and> x < w \<and> 0 \<le> y \<and> y < h" for x y
    using that assms by (simp add: to_int32_small)
  then show ?thesis
    by (auto simp: normalize_pixels_def Let_def list_all_iff)
qed

lemma explicit_island_ok:
  assumes "explicit_island w h idx e = Inr (Some island)" "w \<le> 2147483648" "h \<le> 2147483648"
  shows "pixels_ok w h island"
proof -
  from assms(1) obtain raw where "pixels island = normalize_pixels raw w h"
    by (auto simp: explicit_island_def Let_def split: sum.splits if_splits option.splits)
  with normalize_pixels_ok [OF assms(2,3), of raw] show ?thesis
    by (simp add: pixels_ok_def)
qed

lemma explicit_loop_ok:
  "explicit_loop w h idx es acc = Inr islands \<Longrightarrow> list_all (pixels_ok w h) acc \<Longrightarrow>
   w \<le> 2147483648 \<Longrightarrow> h \<le> 2147483648 \<Longrightarrow> list_all (pixels_ok w h) islands"
proof (induction w h idx es acc rule: explicit_loop.induct)
  case (1 width height idx islands)
  then show ?case by simp
next
  case (2 width height idx es islands)
  then show ?case by simp
next
  case (3 width height idx e es acc)
  show ?case
  proof (cases "explicit_island width height idx e")
    case (Inl err)
    with "3.prems"(1) show ?thesis by simp
  next
    case (Inr r)
    show ?thesis
    proof (cases r)
      case None
      with Inr "3.prems" "3.IH"(1) show ?thesis by simp
    next
      case (Some island)
      from explicit_island_ok [OF Inr [unfolded Some] "3.prems"(3,4)]
      have "list_all (pixels_ok width height) (acc @ [island])"
        using "3.prems"(2) by simp
      with Inr Some "3.prems" "3.IH"(2) show ?thesis by simp
    qed
  qed
qed

lemma islands_from_explicit_payload_ok:
  assumes "islands_from_explicit_payload pl = Inr (islands, w, h)"
    and "w \<le> 2147483648" "h \<le> 2147483648"
  shows "list_all (pixels_ok w h) islands"
proof -
  from assms(1) obtain es where "explicit_loop w h 0 es [] = Inr islands"
    unfolding islands_from_explicit_payload_def Let_def
    by (auto split: option.splits if_splits prod.splits sum.splits)
  from explicit_loop_ok [OF this _ assms(2,3)] show ?thesis by simp
qed


text \<open>
  C2, as the code has it. On a canvas whose sides are at most \<open>2^31\<close> (so that the 32-bit
  pixel coordinates do not wrap), and for decoded images that are arrays, every island
  the resolver returns has unique pixel coordinates inside \<open>[0,width) x [0,height)\<close>, in
  each of the three modes; in ID-map mode and in mesh mode the pixel sets of the islands
  are pairwise disjoint. Explicit mode takes the pixel sets as the descriptors give them.
\<close>

theorem resolved_islands_invariant:
  assumes "load_islands pl cli_id_map bo = Inr (islands, w, h)"
    and "w \<le> 2147483648" and "h \<le> 2147483648"
    and "\<forall>img. cli_id_map = Some img \<longrightarrow> rect_image img"
    and "\<forall>img. p_id_map pl = Some img \<longrightarrow> rect_image img"
  shows "list_all (pixels_ok w h) islands \<and>
    ((cli_id_map = None \<and> p_id_map pl = None \<and> is_not_none (p_islands pl)) \<or>
     pairwise_disjoint islands)"
proof (cases "case cli_id_map of Some i \<Rightarrow> Some i | None \<Rightarrow> p_id_map pl")
  case (Some img)
  with assms(4,5) have r: "rect_image img" by (auto split: option.splits)
  from assms(1) Some obtain ids bg where l: "load_id_map img = Inr ids"
    and i: "islands_from_id_map ids bg = Inr (islands, w, h)"
    by (auto simp: load_islands_def Let_def split: sum.splits)
  from islands_from_id_map_ok [OF i load_id_map_rect [OF l r] assms(2,3)]
  show ?thesis by simp
next
  case None
  then have n: "cli_id_map = None" "p_id_map pl = None" by (auto split: option.splits)
  show ?thesis
  proof (cases "is_not_none (p_islands pl)")
    case True
    with assms(1) None have "islands_from_explicit_payload pl = Inr (islands, w, h)"
      by (simp add: load_islands_def Let_def)
    from islands_from_explicit_payload_ok [OF this assms(2,3)] n True show ?thesis by simp
  next
    case False
    with assms(1) None have "islands_from_mesh_payload pl = Inr (islands, w, h)"
      by (simp add: load_islands_def Let_def split: if_splits)
    from mesh_payload_islands(2) [OF this assms(2,3)] show ?thesis by simp
  qed
qed

theorem resolved_islands_invariant_witness:
  "load_islands empty_payload (Some (Gray [[1, 2], [0, 1]])) None =
     Inr ([\<lparr>island_id = IntId 1, pixels = [(0, 0), (1, 1)], pixel_uvs = None, uv_points = None\<rparr>,
           \<lparr>island_id = IntId 2, pixels = [(1, 0)], pixel_uvs = None, uv_points = None\<rparr>], 2, 2) \<and>
   list_all (pixels_ok 2 2)
     [\<lparr>island_id = IntId 1, pixels = [(0, 0), (1, 1)], pixel_uvs = None, uv_points = None\<rparr>,
      \<lparr>island_id = IntId 2, pixels = [(1, 0)], pixel_uvs = None, uv_points = None\<rparr>] \<and>
   pairwise_disjoint
     [\<lparr>island_id = IntId 1, pixels = [(0, 0), (1, 1)], pixel_uvs = None, uv_points = None\<rparr>,
      \<lparr>island_id = IntId 2, pixels = [(1, 0)], pixel_uvs = None, uv_points = None\<rparr>]"
proof -
  let ?a = "\<lparr>island_id = IntId 1, pixels = [(0, 0), (1, 1)], pixel_uvs = None, uv_points = None\<rparr>"
  let ?b = "\<lparr>island_id = IntId 2, pixels = [(1, 0)], pixel_uvs = None, uv_points = None\<rparr>"
  have res: "load_islands empty_payload (Some (Gray [[1, 2], [0, 1]])) None = Inr ([?a, ?b], 2, 2)"
    by (simp add: load_islands_def empty_payload_def load_id_map_def islands_from_id_map_def
        row_width_def cells_equal_def enumerate_eq_zip to_int32_def)
  have r: "\<forall>img. Some (Gray [[1, 2], [0, 1]]) = Some img \<longrightarrow> rect_image img"
    by (simp add: rect_image_def rect_def row_width_def)
  have p: "\<forall>img. p_id_map empty_payload = Some img \<longrightarrow> rect_image img"
    by (simp add: empty_payload_def)
  from resolved_islands_invariant [OF res _ _ r p]
  have "list_all (pixels_ok 2 2) [?a, ?b] \<and> pairwise_disjoint [?a, ?b]" by simp
  with res show ?thesis by simp
qed

text \<open>
  C2 as stated fails in explicit mode: two descriptors that list the same pixel give two
  islands that share it. It also fails beyond the 32-bit range: on a canvas 2^31 + 1
  pixels wide the pixel at \<open>x = 2^31\<close> is in bounds, and its coordinate wraps to \<open>-2^31\<close>.
\<close>

theorem explicit_islands_overlap:
  "load_islands
     (empty_payload\<lparr>p_width := Some 1, p_height := Some 1,
        p_islands := Some
          [Dict \<lparr>entry_id = None, entry_pixels = Some [[0, 0]], entry_mask = None,
                  entry_uvs = None, entry_uv_points = None\<rparr>,
           Dict \<lparr>entry_id = None, entry_pixels = Some [[0, 0]], entry_mask = None,
                  entry_uvs = None, entry_uv_points = None\<rparr>]\<rparr>) None None =
     Inr ([\<lparr>island_id = IntId 1, pixels = [(0, 0)], pixel_uvs = None, uv_points = None\<rparr>,
           \<lparr>island_id = IntId 2, pixels = [(0, 0)], pixel_uvs = None, uv_points = None\<rparr>], 1, 1) \<and>
   \<not> pairwise_disjoint
     [\<lparr>island_id = IntId 1, pixels = [(0, 0)], pixel_uvs = None, uv_points = None\<rparr>,
      \<lparr>island_id = IntId 2, pixels = [(0, 0)], pixel_uvs = None, uv_points = None\<rparr>] \<and>
   load_islands
     (empty_payload\<lparr>p_width := Some 2147483649, p_height := Some 1,
        p_islands := Some
          [Dict \<lparr>entry_id = None, entry_pixels = Some [[2147483648, 0]], entry_mask = None,
                  entry_uvs = None, entry_uv_points = None\<rparr>]\<rparr>) None None =
     Inr ([\<lparr>island_id = IntId 1, pixels = [(- 2147483648, 0)], pixel_uvs = None,
            uv_points = None\<rparr>], 2147483649, 1) \<and>
   \<not> pixels_ok 2147483649 1
     \<lparr>island_id = IntId 1, pixels = [(- 2147483648, 0)], pixel_uvs = None, uv_points = None\<rparr>"
proof -
  have a: "load_islands
     (empty_payload\<lparr>p_width := Some 1, p_height := Some 1,
        p_islands := Some
          [Dict \<lparr>entry_id = None, entry_pixels = Some [[0, 0]], entry_mask = None,
                  entry_uvs = None, entry_uv_points = None\<rparr>,
           Dict \<lparr>entry_id = None, entry_pixels = Some [[0, 0]], entry_mask = None,
                  entry_uvs = None, entry_uv_points = None\<rparr>]\<rparr>) None None =
     Inr ([\<lparr>island_id = IntId 1, pixels = [(0, 0)], pixel_uvs = None, uv_points = None\<rparr>,
           \<lparr>island_id = IntId 2, pixels = [(0, 0)], pixel_uvs = None, uv_points = None\<rparr>], 1, 1)"
    by (simp add: load_islands_def empty_payload_def is_not_none_def
        islands_from_explicit_payload_def explicit_island_def parse_int_points_def as_n_by_2_def
        fits_int64_def normalize_pixels_def to_int32_def)
  have b: "\<not> pairwise_disjoint
     [\<lparr>island_id = IntId 1, pixels = [(0, 0)], pixel_uvs = None, uv_points = None\<rparr>,
      \<lparr>island_id = IntId 2, pixels = [(0, 0)], pixel_uvs = None, uv_points = None\<rparr>]"
    unfolding pairwise_disjoint_def
    by (simp, intro exI [of _ 0], simp, intro exI [of _ 1], simp)
  have c: "load_islands
     (empty_payload\<lparr>p_width := Some 2147483649, p_height := Some 1,
        p_islands := Some
          [Dict \<lparr>entry_id = None, entry_pixels = Some [[2147483648, 0]], entry_mask = None,
                  entry_uvs = None, entry_uv_points = None\<rparr>]\<rparr>) None None =
     Inr ([\<lparr>island_id = IntId 1, pixels = [(- 2147483648, 0)], pixel_uvs = None,
            uv_points = None\<rparr>], 2147483649, 1)"
    by (simp add: load_islands_def empty_payload_def is_not_none_def
        islands_from_explicit_payload_def explicit_island_def parse_int_points_def as_n_by_2_def
        fits_int64_def normalize_pixels_def to_int32_def)
  have d: "\<not> pixels_ok 2147483649 1
     \<lparr>island_id = IntId 1, pixels = [(- 2147483648, 0)], pixel_uvs = None, uv_points = None\<rparr>"
    by (simp add: pixels_ok_def)
  from a b c d show ?thesis by blast
qed

section \<open>Empty results\<close>

text \<open>
  The two sibling resolvers end with the empty-result check that \<open>islands_from_id_map\<close>
  lacks: a result of theirs always has an island, while the ID-map resolver returns
  normally on any raster, with no island at all when every cell holds the background id.
\<close>

lemma explicit_payload_nonempty:
  "islands_from_explicit_payload pl = Inr (islands, w, h) \<Longrightarrow> islands \<noteq> []"
  unfolding islands_from_explicit_payload_def Let_def
  by (auto split: option.splits if_splits prod.splits sum.splits)

lemma mesh_payload_nonempty:
  "islands_from_mesh_payload pl = Inr (islands, w, h) \<Longrightarrow> islands \<noteq> []"
  using mesh_payload_result by blast

lemma id_map_all_background:
  assumes "list_all (list_all (\<lambda>v. v = bg)) ids"
  shows "islands_from_id_map ids bg = Inr ([], int (row_width ids), int (length ids))"
proof -
  from assms have "set (concat ids) \<subseteq> {bg}"
    by (auto simp: list_all_iff)
  then have "filter (\<lambda>v. v \<noteq> bg) (sort (remdups (concat ids))) = []"
    by (auto simp: filter_empty_conv)
  then show ?thesis by (simp add: islands_from_id_map_def)
qed

end
